theory Spec2Isabelle
  imports Main "HOL-Library.Word"
begin

unbundle bit_operations_syntax

section \<open>Gas.zip deposit calldata decoder (src/gaszip-decode.ts)\<close>

text \<open>
  A shallow embedding of \<^verbatim>\<open>decodeGasZipCalldata\<close> and of the functions it calls.
  JavaScript strings are modelled as \<^typ>\<open>string\<close>: one \<^typ>\<open>char\<close> per code unit, for
  the code units below 256. The elements of a \<^verbatim>\<open>Uint8Array\<close> are 8-bit words, every
  other JavaScript number that occurs (lengths, offsets, chain ids) is a natural number
  or an integer. A \<^verbatim>\<open>throw new Error(msg)\<close> is the left injection of a sum, with one
  constructor per \<^verbatim>\<open>throw\<close> of the source. The \<^verbatim>\<open>console.error\<close> lines under
  \<^verbatim>\<open>DEBUG_DECODER\<close> write to the terminal only and are left out.
\<close>

subsection \<open>Data\<close>

type_synonym byte = "8 word"

text \<open>The \<^verbatim>\<open>throw\<close> statements of the source, named after their messages.\<close>

datatype error =
    ExpectedHexString        \<comment> \<open>'Expected 0x-prefixed even-length hex string'\<close>
  | InvalidHexLength         \<comment> \<open>'Invalid hex length'\<close>
  | EmptyCalldataError       \<comment> \<open>'Empty calldata'\<close>
  | CalldataTooShort         \<comment> \<open>'Calldata too short for expected address length'\<close>
  | ChainTailNotMultipleOf2  \<comment> \<open>'Chain IDs tail must be a multiple of 2 bytes'\<close>
  | EvmAddressLength         \<comment> \<open>'EVM address must be 20 bytes'\<close>
  | MoveAddressLength        \<comment> \<open>'MOVE/FUEL address must be 32 bytes'\<close>
  | InitiaAddressLength      \<comment> \<open>'Initia address expected 20 bytes'\<close>

text \<open>
  The error taxonomy of the specification (section 7), as a classification of the
  source's \<^verbatim>\<open>throw\<close> statements.
\<close>

datatype error_kind =
  InvalidHexEncoding | EmptyCalldata | AddressLengthMismatch | MalformedChainTail

fun kind_of :: "error \<Rightarrow> error_kind" where
  "kind_of ExpectedHexString = InvalidHexEncoding"
| "kind_of InvalidHexLength = InvalidHexEncoding"
| "kind_of EmptyCalldataError = EmptyCalldata"
| "kind_of CalldataTooShort = AddressLengthMismatch"
| "kind_of ChainTailNotMultipleOf2 = MalformedChainTail"
| "kind_of EvmAddressLength = AddressLengthMismatch"
| "kind_of MoveAddressLength = AddressLengthMismatch"
| "kind_of InitiaAddressLength = AddressLengthMismatch"

datatype decoded_type = SELF | EVM | BASE58 | MOVE | XRP | INITIA | UNKNOWN

record chain_info =
  name :: string
  nativeId :: nat

text \<open>An entry of \<^verbatim>\<open>GasZipDecoded.chainIds\<close>; an absent field is \<^const>\<open>None\<close>.\<close>

record chain_entry =
  id_m :: nat
  name_m :: "string option"
  nativeId_m :: "nat option"

text \<open>\<^verbatim>\<open>GasZipDecoded.destination\<close>: an object whose keys are all optional.\<close>

record destination_obj =
  evm :: "string option"
  move :: "string option"
  base58 :: "string option"
  base58Hex :: "string option"
  solanaLike :: "bool option"
  xrp :: "string option"
  initia :: "string option"
  initiaHex :: "string option"

definition empty_destination :: destination_obj where
  "empty_destination =
     \<lparr>evm = None, move = None, base58 = None, base58Hex = None, solanaLike = None,
      xrp = None, initia = None, initiaHex = None\<rparr>"

record GasZipDecoded =
  type_d :: decoded_type
  raw :: string
  prefix_d :: string
  destination :: destination_obj
  chainIds_d :: "chain_entry list"
  leftoversHex :: "string option"

subsection \<open>The chain registry\<close>

text \<open>
  \<^verbatim>\<open>GASZIP_CHAINS\<close>, the module-level table, in the order of the source. Its keys are
  pairwise distinct, so the first match of \<^const>\<open>map_of\<close> is the object's property.
\<close>

definition GASZIP_CHAINS_table :: "(nat \<times> chain_info) list" where
  "GASZIP_CHAINS_table = [
    (110, \<lparr>name = ''Abstract'', nativeId = 2741\<rparr>),
    (493, \<lparr>name = ''Adventure Layer'', nativeId = 9988\<rparr>),
    (261, \<lparr>name = ''AILayer'', nativeId = 2649\<rparr>),
    (297, \<lparr>name = ''Aleph Zero EVM'', nativeId = 41455\<rparr>),
    (233, \<lparr>name = ''AlienX'', nativeId = 10241024\<rparr>),
    (128, \<lparr>name = ''Ancient8'', nativeId = 888888888\<rparr>),
    (445, \<lparr>name = ''Animechain'', nativeId = 69000\<rparr>),
    (296, \<lparr>name = ''ApeChain'', nativeId = 33139\<rparr>),
    (401, \<lparr>name = ''AppChain'', nativeId = 466\<rparr>),
    (348, \<lparr>name = ''Aptos'', nativeId = 1000011\<rparr>),
    (53, \<lparr>name = ''Arbitrum Nova'', nativeId = 42170\<rparr>),
    (57, \<lparr>name = ''Arbitrum One'', nativeId = 42161\<rparr>),
    (40, \<lparr>name = ''Astar'', nativeId = 592\<rparr>),
    (62, \<lparr>name = ''Aurora'', nativeId = 1313161554\<rparr>),
    (15, \<lparr>name = ''Avalanche'', nativeId = 43114\<rparr>),
    (278, \<lparr>name = ''B3'', nativeId = 8333\<rparr>),
    (292, \<lparr>name = ''Bahamut'', nativeId = 5165\<rparr>),
    (54, \<lparr>name = ''Base Mainnet'', nativeId = 8453\<rparr>),
    (479, \<lparr>name = ''Battle for Blockchain'', nativeId = 3920262608331171\<rparr>),
    (24, \<lparr>name = ''Beam'', nativeId = 4337\<rparr>),
    (143, \<lparr>name = ''Berachain'', nativeId = 80094\<rparr>),
    (138, \<lparr>name = ''BEVM'', nativeId = 11501\<rparr>),
    (85, \<lparr>name = ''BiFrost'', nativeId = 3068\<rparr>),
    (147, \<lparr>name = ''Bitlayer'', nativeId = 200901\<rparr>),
    (494, \<lparr>name = ''Bittensor EVM'', nativeId = 964\<rparr>),
    (96, \<lparr>name = ''Blast'', nativeId = 81457\<rparr>),
    (150, \<lparr>name = ''BOB'', nativeId = 60808\<rparr>),
    (411, \<lparr>name = ''Boba BNB'', nativeId = 56288\<rparr>),
    (140, \<lparr>name = ''Boba ETH'', nativeId = 288\<rparr>),
    (496, \<lparr>name = ''Botanix'', nativeId = 3637\<rparr>),
    (14, \<lparr>name = ''BSC Mainnet'', nativeId = 56\<rparr>),
    (148, \<lparr>name = (''B'' @ [CHR 0xB2] @ '' Network''), nativeId = 223\<rparr>),
    (126, \<lparr>name = ''Callisto'', nativeId = 820\<rparr>),
    (502, \<lparr>name = ''CAMP'', nativeId = 484\<rparr>),
    (21, \<lparr>name = ''Celo'', nativeId = 42220\<rparr>),
    (333, \<lparr>name = ''CheeseChain'', nativeId = 383353\<rparr>),
    (458, \<lparr>name = ''Civitia'', nativeId = 1000024\<rparr>),
    (357, \<lparr>name = ''Codex'', nativeId = 81224\<rparr>),
    (65, \<lparr>name = ''ConFlux'', nativeId = 1030\<rparr>),
    (498, \<lparr>name = ''Converge'', nativeId = 432\<rparr>),
    (416, \<lparr>name = ''Conwai'', nativeId = 668668\<rparr>),
    (34, \<lparr>name = ''CoreDAO'', nativeId = 1116\<rparr>),
    (391, \<lparr>name = ''Corn'', nativeId = 21000000\<rparr>),
    (36, \<lparr>name = ''Cronos'', nativeId = 25\<rparr>),
    (276, \<lparr>name = ''Cronos zkEVM'', nativeId = 388\<rparr>),
    (135, \<lparr>name = ''Cyber'', nativeId = 7560\<rparr>),
    (300, \<lparr>name = ''DeBank'', nativeId = 20240603\<rparr>),
    (133, \<lparr>name = ''Degen'', nativeId = 666666666\<rparr>),
    (365, \<lparr>name = ''Derive'', nativeId = 957\<rparr>),
    (63, \<lparr>name = ''Dexalot'', nativeId = 432204\<rparr>),
    (46, \<lparr>name = ''Dogechain'', nativeId = 2000\<rparr>),
    (134, \<lparr>name = ''Dymension'', nativeId = 1100\<rparr>),
    (459, \<lparr>name = ''Echelon'', nativeId = 1000025\<rparr>),
    (328, \<lparr>name = ''Eclipse'', nativeId = 1000002\<rparr>),
    (489, \<lparr>name = ''EDU'', nativeId = 41923\<rparr>),
    (474, \<lparr>name = ''Embr'', nativeId = 2598901095158506\<rparr>),
    (302, \<lparr>name = ''Endurance'', nativeId = 648\<rparr>),
    (142, \<lparr>name = ''EOS EVM'', nativeId = 17777\<rparr>),
    (255, \<lparr>name = ''Ethereum'', nativeId = 1\<rparr>),
    (346, \<lparr>name = ''Etherlink'', nativeId = 42793\<rparr>),
    (364, \<lparr>name = ''Ethernity'', nativeId = 183\<rparr>),
    (71, \<lparr>name = ''ETHW'', nativeId = 10001\<rparr>),
    (491, \<lparr>name = ''Everclear'', nativeId = 25327\<rparr>),
    (39, \<lparr>name = ''EVMOS'', nativeId = 9001\<rparr>),
    (403, \<lparr>name = ''ExSat'', nativeId = 7200\<rparr>),
    (20, \<lparr>name = ''Fantom'', nativeId = 250\<rparr>),
    (354, \<lparr>name = ''Flame'', nativeId = 253368190\<rparr>),
    (38, \<lparr>name = ''Flare'', nativeId = 14\<rparr>),
    (437, \<lparr>name = ''Flow EVM'', nativeId = 747\<rparr>),
    (304, \<lparr>name = ''Fluence'', nativeId = 9999999\<rparr>),
    (383, \<lparr>name = ''Form'', nativeId = 478\<rparr>),
    (267, \<lparr>name = ''Forma'', nativeId = 984122\<rparr>),
    (10, \<lparr>name = ''Fraxtal'', nativeId = 252\<rparr>),
    (339, \<lparr>name = ''Fuel'', nativeId = 1000006\<rparr>),
    (31, \<lparr>name = ''Fuse'', nativeId = 122\<rparr>),
    (431, \<lparr>name = ''G7'', nativeId = 2187\<rparr>),
    (16, \<lparr>name = ''Gnosis'', nativeId = 100\<rparr>),
    (440, \<lparr>name = ''GOAT'', nativeId = 2345\<rparr>),
    (240, \<lparr>name = ''Gravity'', nativeId = 1625\<rparr>),
    (247, \<lparr>name = ''Ham'', nativeId = 5112\<rparr>),
    (66, \<lparr>name = ''Harmony'', nativeId = 1666600000\<rparr>),
    (408, \<lparr>name = ''Hashkey'', nativeId = 177\<rparr>),
    (397, \<lparr>name = ''Hemi'', nativeId = 43111\<rparr>),
    (495, \<lparr>name = ''Humanity'', nativeId = 6985385\<rparr>),
    (501, \<lparr>name = ''Humanode'', nativeId = 5234\<rparr>),
    (132, \<lparr>name = ''Hychain'', nativeId = 2911\<rparr>),
    (291, \<lparr>name = ''HyperCore'', nativeId = 88778877\<rparr>),
    (430, \<lparr>name = ''HyperEVM'', nativeId = 999\<rparr>),
    (95, \<lparr>name = ''Immutable zkEVM'', nativeId = 13371\<rparr>),
    (480, \<lparr>name = ''ING'', nativeId = 2780922216980457\<rparr>),
    (456, \<lparr>name = ''Initia'', nativeId = 1000023\<rparr>),
    (78, \<lparr>name = ''Injective EVM'', nativeId = 2525\<rparr>),
    (392, \<lparr>name = ''Ink'', nativeId = 57073\<rparr>),
    (460, \<lparr>name = ''INRT'', nativeId = 1000026\<rparr>),
    (461, \<lparr>name = ''Intergaze'', nativeId = 1000027\<rparr>),
    (67, \<lparr>name = ''IoTeX'', nativeId = 4689\<rparr>),
    (33, \<lparr>name = ''Kaia'', nativeId = 8217\<rparr>),
    (485, \<lparr>name = ''Katana'', nativeId = 747474\<rparr>),
    (22, \<lparr>name = ''Kava'', nativeId = 2222\<rparr>),
    (90, \<lparr>name = ''KCC'', nativeId = 321\<rparr>),
    (478, \<lparr>name = ''LayerEdge'', nativeId = 4207\<rparr>),
    (442, \<lparr>name = ''Lens'', nativeId = 232\<rparr>),
    (79, \<lparr>name = ''Lightlink'', nativeId = 1890\<rparr>),
    (59, \<lparr>name = ''Linea'', nativeId = 59144\<rparr>),
    (238, \<lparr>name = ''Lisk'', nativeId = 1135\<rparr>),
    (87, \<lparr>name = ''Lukso'', nativeId = 42\<rparr>),
    (332, \<lparr>name = ''Lumia Prism'', nativeId = 994873017\<rparr>),
    (100, \<lparr>name = ''Lumio'', nativeId = 8866\<rparr>),
    (60, \<lparr>name = ''Manta'', nativeId = 169\<rparr>),
    (13, \<lparr>name = ''Mantle Mainnet'', nativeId = 5000\<rparr>),
    (294, \<lparr>name = ''Matchain'', nativeId = 698\<rparr>),
    (9, \<lparr>name = ''Merlin'', nativeId = 4200\<rparr>),
    (144, \<lparr>name = ''Metal'', nativeId = 1750\<rparr>),
    (26, \<lparr>name = ''Meter'', nativeId = 82\<rparr>),
    (30, \<lparr>name = ''Metis'', nativeId = 1088\<rparr>),
    (499, \<lparr>name = ''Mezo'', nativeId = 31612\<rparr>),
    (483, \<lparr>name = ''MilkyWay'', nativeId = 1000033\<rparr>),
    (407, \<lparr>name = ''Mind'', nativeId = 228\<rparr>),
    (253, \<lparr>name = ''Mint'', nativeId = 185\<rparr>),
    (503, \<lparr>name = ''Mitosis'', nativeId = 124816\<rparr>),
    (73, \<lparr>name = ''Mode'', nativeId = 34443\<rparr>),
    (28, \<lparr>name = ''Moonbeam'', nativeId = 1284\<rparr>),
    (29, \<lparr>name = ''Moonriver'', nativeId = 1285\<rparr>),
    (340, \<lparr>name = ''Morph'', nativeId = 2818\<rparr>),
    (97, \<lparr>name = ''Muster Network'', nativeId = 4078\<rparr>),
    (92, \<lparr>name = ''Neon EVM'', nativeId = 245022934\<rparr>),
    (477, \<lparr>name = ''Nibiru'', nativeId = 6900\<rparr>),
    (259, \<lparr>name = ''Numbers'', nativeId = 10507\<rparr>),
    (23, \<lparr>name = ''Oasis Emerald'', nativeId = 42262\<rparr>),
    (69, \<lparr>name = ''Oasys'', nativeId = 248\<rparr>),
    (490, \<lparr>name = ''OEV API3'', nativeId = 4913\<rparr>),
    (35, \<lparr>name = ''OKX'', nativeId = 66\<rparr>),
    (492, \<lparr>name = ''Onyx'', nativeId = 80888\<rparr>),
    (55, \<lparr>name = ''OP Mainnet'', nativeId = 10\<rparr>),
    (58, \<lparr>name = ''opBNB'', nativeId = 204\<rparr>),
    (236, \<lparr>name = ''Optopia'', nativeId = 62050\<rparr>),
    (74, \<lparr>name = ''Orderly'', nativeId = 291\<rparr>),
    (423, \<lparr>name = ''Peaq'', nativeId = 3338\<rparr>),
    (88, \<lparr>name = ''PEGO'', nativeId = 20201022\<rparr>),
    (422, \<lparr>name = ''Phala'', nativeId = 2035\<rparr>),
    (5, \<lparr>name = ''PlatON'', nativeId = 210425\<rparr>),
    (450, \<lparr>name = ''Plume'', nativeId = 98866\<rparr>),
    (17, \<lparr>name = ''Polygon'', nativeId = 137\<rparr>),
    (52, \<lparr>name = ''Polygon zkEVM'', nativeId = 1101\<rparr>),
    (367, \<lparr>name = ''Polynomial'', nativeId = 8008\<rparr>),
    (448, \<lparr>name = ''Powerloom V2'', nativeId = 7869\<rparr>),
    (378, \<lparr>name = ''Prom'', nativeId = 227\<rparr>),
    (98, \<lparr>name = ''Proof of Play Apex'', nativeId = 70700\<rparr>),
    (293, \<lparr>name = ''Proof of Play Boss'', nativeId = 70701\<rparr>),
    (12, \<lparr>name = ''Pulsechain'', nativeId = 369\<rparr>),
    (452, \<lparr>name = ''R5 Testnet'', nativeId = 337\<rparr>),
    (298, \<lparr>name = ''Race'', nativeId = 6805\<rparr>),
    (82, \<lparr>name = ''Rari'', nativeId = 1380012617\<rparr>),
    (482, \<lparr>name = ''Rave'', nativeId = 555110192329996\<rparr>),
    (149, \<lparr>name = ''Redstone'', nativeId = 690\<rparr>),
    (466, \<lparr>name = ''Rena Nuwa'', nativeId = 1000032\<rparr>),
    (234, \<lparr>name = ''Reya'', nativeId = 1729\<rparr>),
    (396, \<lparr>name = ''River'', nativeId = 550\<rparr>),
    (413, \<lparr>name = ''Ronin'', nativeId = 2020\<rparr>),
    (254, \<lparr>name = ''Rootstock'', nativeId = 30\<rparr>),
    (125, \<lparr>name = ''RSS3'', nativeId = 12553\<rparr>),
    (295, \<lparr>name = ''Saakuru'', nativeId = 7225878\<rparr>),
    (131, \<lparr>name = ''Sanko'', nativeId = 1996\<rparr>),
    (6, \<lparr>name = ''SatoshiVM'', nativeId = 3109\<rparr>),
    (246, \<lparr>name = ''Sei'', nativeId = 1329\<rparr>),
    (443, \<lparr>name = ''Settlus'', nativeId = 5371\<rparr>),
    (327, \<lparr>name = ''Shape'', nativeId = 360\<rparr>),
    (455, \<lparr>name = ''zkCandy'', nativeId = 320\<rparr>),
    (398, \<lparr>name = ''Skate'', nativeId = 5050\<rparr>),
    (287, \<lparr>name = ''Snaxchain'', nativeId = 2192\<rparr>),
    (245, \<lparr>name = ''Solana'', nativeId = 501474\<rparr>),
    (504, \<lparr>name = ''Somnia'', nativeId = 5031\<rparr>),
    (414, \<lparr>name = ''Soneium'', nativeId = 1868\<rparr>),
    (389, \<lparr>name = ''Sonic'', nativeId = 146\<rparr>),
    (410, \<lparr>name = ''Soon Mainnet'', nativeId = 1000020\<rparr>),
    (484, \<lparr>name = ''Sophon'', nativeId = 50104\<rparr>),
    (406, \<lparr>name = ''Spotlight'', nativeId = 10058111\<rparr>),
    (64, \<lparr>name = ''Step'', nativeId = 1234\<rparr>),
    (181, \<lparr>name = ''Story'', nativeId = 1514\<rparr>),
    (347, \<lparr>name = ''Sui'', nativeId = 1000010\<rparr>),
    (303, \<lparr>name = ''Superposition'', nativeId = 55244\<rparr>),
    (366, \<lparr>name = ''Superseed'', nativeId = 5330\<rparr>),
    (256, \<lparr>name = ''Swan'', nativeId = 254\<rparr>),
    (385, \<lparr>name = ''Swell'', nativeId = 1923\<rparr>),
    (19, \<lparr>name = ''SX Network'', nativeId = 416\<rparr>),
    (137, \<lparr>name = ''Syndicate Frame'', nativeId = 5101\<rparr>),
    (249, \<lparr>name = ''Taiko'', nativeId = 167000\<rparr>),
    (47, \<lparr>name = ''Telos'', nativeId = 40\<rparr>),
    (27, \<lparr>name = ''Tenet'', nativeId = 1559\<rparr>),
    (258, \<lparr>name = ''ThunderCore'', nativeId = 108\<rparr>),
    (75, \<lparr>name = ''Tron'', nativeId = 1000001\<rparr>),
    (394, \<lparr>name = ''U2U Solaris'', nativeId = 39\<rparr>),
    (362, \<lparr>name = ''Unichain'', nativeId = 130\<rparr>),
    (419, \<lparr>name = ''UNIT0'', nativeId = 88811\<rparr>),
    (488, \<lparr>name = ''Vana'', nativeId = 1480\<rparr>),
    (395, \<lparr>name = ''Vanar'', nativeId = 2040\<rparr>),
    (43, \<lparr>name = ''Viction'', nativeId = 88\<rparr>),
    (301, \<lparr>name = ''Vizing'', nativeId = 28518\<rparr>),
    (81, \<lparr>name = ''Wemix'', nativeId = 1111\<rparr>),
    (269, \<lparr>name = ''WorldChain'', nativeId = 480\<rparr>),
    (146, \<lparr>name = ''X Layer'', nativeId = 196\<rparr>),
    (77, \<lparr>name = ''XAI'', nativeId = 660279\<rparr>),
    (242, \<lparr>name = ''XCHAIN'', nativeId = 94524\<rparr>),
    (420, \<lparr>name = ''XDC'', nativeId = 50\<rparr>),
    (48, \<lparr>name = ''XPLA'', nativeId = 37\<rparr>),
    (377, \<lparr>name = ''XRP'', nativeId = 1000016\<rparr>),
    (487, \<lparr>name = ''XRPL EVM'', nativeId = 1440000\<rparr>),
    (239, \<lparr>name = ''Xterio'', nativeId = 2702128\<rparr>),
    (471, \<lparr>name = ''Yominet EVM'', nativeId = 428962654539583\<rparr>),
    (481, \<lparr>name = ''Zaar'', nativeId = 1335097526422335\<rparr>),
    (361, \<lparr>name = ''ZERO'', nativeId = 543210\<rparr>),
    (94, \<lparr>name = ''Zeta'', nativeId = 7000\<rparr>),
    (353, \<lparr>name = ''Zircuit'', nativeId = 48900\<rparr>),
    (50, \<lparr>name = ''zkFair'', nativeId = 42766\<rparr>),
    (136, \<lparr>name = ''zkLink Nova'', nativeId = 810180\<rparr>),
    (41, \<lparr>name = ''zkScroll'', nativeId = 534352\<rparr>),
    (51, \<lparr>name = ''zkSync Era'', nativeId = 324\<rparr>),
    (56, \<lparr>name = ''Zora'', nativeId = 7777777\<rparr>)
  ]"

definition GASZIP_CHAINS :: "nat \<rightharpoonup> chain_info" where
  "GASZIP_CHAINS = map_of GASZIP_CHAINS_table"

subsection \<open>Byte codec\<close>

definition startsWith :: "string \<Rightarrow> string \<Rightarrow> bool" where
  "startsWith s p = (take (length p) s = p)"

text \<open>
  \<^verbatim>\<open>assertHex\<close>: \<^const>\<open>None\<close> when the assertion passes. The \<^verbatim>\<open>typeof\<close> test is
  decided by the parameter's type.
\<close>

definition assertHex :: "string \<Rightarrow> error option" where
  "assertHex input =
     (if \<not> startsWith input ''0x'' \<or> length input mod 2 \<noteq> 0
      then Some ExpectedHexString else None)"

text \<open>
  \<^verbatim>\<open>parseInt(s, 16)\<close> as ECMAScript defines it: leading white space is skipped, a sign
  is read, a prefix \<^verbatim>\<open>0x\<close> or \<^verbatim>\<open>0X\<close> is dropped, and the longest run of hexadecimal
  digits that follows is the number; with no digit there the result is \<^verbatim>\<open>NaN\<close>,
  here \<^const>\<open>None\<close>.
\<close>

definition isWhiteSpace :: "char \<Rightarrow> bool" where
  "isWhiteSpace c =
     (c = CHR 0x09 \<or> c = CHR 0x0A \<or> c = CHR 0x0B \<or> c = CHR 0x0C \<or> c = CHR 0x0D
      \<or> c = CHR 0x20 \<or> c = CHR 0xA0)"

definition hexDigitValue :: "char \<Rightarrow> nat option" where
  "hexDigitValue c =
     (let n = (of_char c :: nat) in
      if 48 \<le> n \<and> n \<le> 57 then Some (n - 48)
      else if 97 \<le> n \<and> n \<le> 102 then Some (n - 87)
      else if 65 \<le> n \<and> n \<le> 70 then Some (n - 55)
      else None)"

definition parseInt16 :: "string \<Rightarrow> int option" where
  "parseInt16 inputString =
     (let S = dropWhile isWhiteSpace inputString;
          sign = (if S \<noteq> [] \<and> hd S = CHR ''-'' then - 1 else 1 :: int);
          S1 = (if S \<noteq> [] \<and> (hd S = CHR ''+'' \<or> hd S = CHR ''-'') then tl S else S);
          S2 = (if startsWith S1 ''0x'' \<or> startsWith S1 ''0X'' then drop 2 S1 else S1);
          Z = takeWhile (\<lambda>c. hexDigitValue c \<noteq> None) S2
      in if Z = [] then None
         else Some (sign * int (foldl (\<lambda>a c. 16 * a + the (hexDigitValue c)) 0 Z)))"

text \<open>
  A store into a \<^verbatim>\<open>Uint8Array\<close> converts the number with \<^verbatim>\<open>ToUint8\<close>: \<^verbatim>\<open>NaN\<close>
  becomes 0, an integer is taken modulo 256.
\<close>

definition toUint8 :: "int option \<Rightarrow> byte" where
  "toUint8 v = (case v of None \<Rightarrow> 0 | Some n \<Rightarrow> word_of_int n)"

definition slice_l :: "'a list \<Rightarrow> nat \<Rightarrow> nat \<Rightarrow> 'a list" where
  "slice_l xs i j = take (j - i) (drop i xs)"

definition hexToBytes :: "string \<Rightarrow> error + byte list" where
  "hexToBytes hex =
     (let h = (if startsWith hex ''0x'' then drop 2 hex else hex) in
      if length h mod 2 \<noteq> 0 then Inl InvalidHexLength
      else Inr (map (\<lambda>i. toUint8 (parseInt16 (slice_l h (i * 2) (i * 2 + 2))))
                  [0 ..< length h div 2]))"

text \<open>\<^verbatim>\<open>Number.prototype.toString(16)\<close> on a natural number: lower-case digits.\<close>

definition hexDigit :: "nat \<Rightarrow> char" where
  "hexDigit d = ''0123456789abcdef'' ! d"

fun toString16 :: "nat \<Rightarrow> string" where
  "toString16 n = (if n < 16 then [hexDigit n] else toString16 (n div 16) @ [hexDigit (n mod 16)])"

declare toString16.simps [simp del]

definition padStart :: "string \<Rightarrow> nat \<Rightarrow> char \<Rightarrow> string" where
  "padStart s n c = replicate (n - length s) c @ s"

definition bytesToHex :: "byte list \<Rightarrow> string" where
  "bytesToHex bytes = ''0x'' @ concat (map (\<lambda>b. padStart (toString16 (unat b)) 2 CHR ''0'') bytes)"

text \<open>
  An element read of a \<^verbatim>\<open>Uint8Array\<close> as an operand of \<^verbatim>\<open><<\<close> or \<^verbatim>\<open>|\<close>: out of
  range the read is \<^verbatim>\<open>undefined\<close>, which both operators take as 0.
\<close>

definition byteAt :: "byte list \<Rightarrow> nat \<Rightarrow> nat" where
  "byteAt bytes i = (if i < length bytes then unat (bytes ! i) else 0)"

definition readU16BE :: "byte list \<Rightarrow> nat \<Rightarrow> nat" where
  "readU16BE bytes offset = push_bit 8 (byteAt bytes offset) OR byteAt bytes (offset + 1)"

subsection \<open>Splitting the body into address bytes and chain ids\<close>

definition fixedLen :: "byte \<Rightarrow> nat option" where
  "fixedLen prefix =
     (if prefix = 0x01 then Some 0
      else if prefix = 0x02 then Some 20
      else if prefix = 0x04 then Some 32
      else if prefix = 0x06 then Some 20
      else None)"

text \<open>
  The loop \<^verbatim>\<open>for (let i = 0; i < tail.length; i += 2) chainIds.push(readU16BE(tail, i))\<close>,
  with the index and the array built so far as its state.
\<close>

function pushChainIds :: "byte list \<Rightarrow> nat \<Rightarrow> nat list \<Rightarrow> nat list" where
  "pushChainIds tail i chainIds =
     (if i < length tail then pushChainIds tail (i + 2) (chainIds @ [readU16BE tail i])
      else chainIds)"
  by pat_completeness auto
termination
  by (relation "measure (\<lambda>(tail, i, chainIds). length tail - i)") auto

declare pushChainIds.simps [simp del]

text \<open>
  The backward scan of the variable-length formats. The state is the cursor
  \<^verbatim>\<open>end\<close> and the array \<^verbatim>\<open>chainIdsRev\<close>; the result is the state at the loop's exit,
  by \<^verbatim>\<open>break\<close> or by the loop condition.
\<close>

function scanTail :: "byte list \<Rightarrow> nat \<Rightarrow> nat list \<Rightarrow> nat \<times> nat list" where
  "scanTail body e chainIdsRev =
     (if int e - 2 \<ge> 1 then
        (let val = readU16BE body (e - 2);
             isKnown = (GASZIP_CHAINS val \<noteq> None)
         in if \<not> isKnown \<and> length chainIdsRev > 0 then (e, chainIdsRev)
            else scanTail body (e - 2) (chainIdsRev @ [val]))
      else (e, chainIdsRev))"
  by pat_completeness auto
termination
  by (relation "measure (\<lambda>(body, e, chainIdsRev). e)") auto

declare scanTail.simps [simp del]

text \<open>The object that \<^verbatim>\<open>splitAddressAndChains\<close> returns.\<close>

record split_result =
  addressBytes :: "byte list"
  chainIds :: "nat list"
  leftovers :: "byte list option"

definition splitAddressAndChains :: "byte \<Rightarrow> byte list \<Rightarrow> error + split_result" where
  "splitAddressAndChains prefix body =
     (case fixedLen prefix of
        Some fl \<Rightarrow>
          if length body < fl then Inl CalldataTooShort
          else
            (let addr = slice_l body 0 fl;
                 tail = drop fl body
             in if length tail mod 2 \<noteq> 0 then Inl ChainTailNotMultipleOf2
                else Inr \<lparr>addressBytes = addr, chainIds = pushChainIds tail 0 [],
                          leftovers = None\<rparr>)
      | None \<Rightarrow>
          if prefix = 0x03 \<and> length body \<ge> 32 \<and> (length body - 32) mod 2 = 0 then
            Inr \<lparr>addressBytes = slice_l body 0 32,
                 chainIds = pushChainIds (drop 32 body) 0 [],
                 leftovers = None\<rparr>
          else
            (case scanTail body (length body) [] of
               (e, chainIdsRev) \<Rightarrow>
                 Inr \<lparr>addressBytes = slice_l body 0 e, chainIds = rev chainIdsRev,
                      leftovers = None\<rparr>))"

subsection \<open>The decoder\<close>

text \<open>
  The address encoders come from the packages \<^verbatim>\<open>bs58\<close>, \<^verbatim>\<open>base-x\<close> and \<^verbatim>\<open>bech32\<close>,
  which are not part of this repository. They are parameters of the model; a call that
  throws returns \<^const>\<open>None\<close>.
\<close>

record codecs =
  bs58_encode :: "byte list \<Rightarrow> string option"
  xrpb58_encode :: "byte list \<Rightarrow> string option"
  bech32_toWords :: "byte list \<Rightarrow> nat list option"
  bech32_encode :: "string \<Rightarrow> nat list \<Rightarrow> string option"

text \<open>The function mapped over the chain ids: \<^verbatim>\<open>GASZIP_CHAINS[id]?.name\<close> and so on.\<close>

definition mapChain :: "nat \<Rightarrow> chain_entry" where
  "mapChain i =
     \<lparr>id_m = i, name_m = map_option name (GASZIP_CHAINS i),
      nativeId_m = map_option nativeId (GASZIP_CHAINS i)\<rparr>"

text \<open>
  \<^verbatim>\<open>try { ... } catch { }\<close> around an encoder: the value the variable had before stays
  when the call throws.
\<close>

definition tryEncode :: "'a \<Rightarrow> 'a option \<Rightarrow> 'a" where
  "tryEncode dflt r = (case r of None \<Rightarrow> dflt | Some s \<Rightarrow> s)"

definition decodeGasZipCalldata :: "codecs \<Rightarrow> string \<Rightarrow> error + GasZipDecoded" where
  "decodeGasZipCalldata c input =
     (case assertHex input of
        Some err \<Rightarrow> Inl err
      | None \<Rightarrow>
     (case hexToBytes input of
        Inl err \<Rightarrow> Inl err
      | Inr data \<Rightarrow>
          if length data < 1 then Inl EmptyCalldataError
          else
     (let prefix = data ! 0;
          body = drop 1 data
      in case splitAddressAndChains prefix body of
        Inl err \<Rightarrow> Inl err
      | Inr s \<Rightarrow>
     (let mappedChains = map mapChain (chainIds s);
          base = (\<lambda>t dest.
            \<lparr>type_d = t, raw = input,
             prefix_d = ''0x'' @ padStart (toString16 (unat prefix)) 2 CHR ''0'',
             destination = dest,
             chainIds_d = mappedChains,
             leftoversHex =
               (case leftovers s of
                  None \<Rightarrow> None
                | Some l \<Rightarrow> if length l \<noteq> 0 then Some (bytesToHex l) else None)\<rparr>)
      in
        if prefix = 0x01 then Inr (base SELF empty_destination)
        else if prefix = 0x02 then
          (if length (addressBytes s) \<noteq> 20 then Inl EvmAddressLength
           else Inr (base EVM (empty_destination\<lparr>evm := Some (bytesToHex (addressBytes s))\<rparr>)))
        else if prefix = 0x04 then
          (if length (addressBytes s) \<noteq> 32 then Inl MoveAddressLength
           else Inr (base MOVE (empty_destination\<lparr>move := Some (bytesToHex (addressBytes s))\<rparr>)))
        else if prefix = 0x06 then
          (if length (addressBytes s) \<noteq> 20 then Inl InitiaAddressLength
           else Inr (base INITIA (empty_destination
                  \<lparr>initia := (case bech32_toWords c (addressBytes s) of
                                None \<Rightarrow> None
                              | Some words \<Rightarrow> bech32_encode c ''init'' words),
                   initiaHex := Some (bytesToHex (addressBytes s))\<rparr>)))
        else if prefix = 0x03 then
          Inr (base BASE58 (empty_destination
                 \<lparr>base58 := Some (tryEncode '''' (bs58_encode c (addressBytes s))),
                  base58Hex := Some (bytesToHex (addressBytes s)),
                  solanaLike := Some (length (addressBytes s) = 32)\<rparr>))
        else if prefix = 0x05 then
          Inr (base XRP (empty_destination
                 \<lparr>xrp := Some (tryEncode '''' (xrpb58_encode c (addressBytes s)))\<rparr>))
        else Inr (base UNKNOWN empty_destination)))))"

subsection \<open>Auxiliary definitions for the proofs\<close>

text \<open>The bytes of a string of hexadecimal pairs, pair by pair.\<close>

fun hexPairs :: "string \<Rightarrow> byte list" where
  "hexPairs (a # b # rest) = toUint8 (parseInt16 [a, b]) # hexPairs rest"
| "hexPairs [a] = []"
| "hexPairs [] = []"

text \<open>
  The big-endian 16-bit values of a byte list, left to right. A last single byte is
  read with an absent low byte, as \<^const>\<open>readU16BE\<close> reads it.
\<close>

fun u16s :: "byte list \<Rightarrow> nat list" where
  "u16s (a # b # rest) = (256 * unat a + unat b) # u16s rest"
| "u16s [a] = [256 * unat a]"
| "u16s [] = []"

text \<open>
  The specification's \<open>readUint16BE(bytes, offset)\<close> (section 4.2): the big-endian
  16-bit value of the two bytes at \<open>offset\<close>, for a caller that guarantees
  \<open>offset + 1 < length\<close>.
\<close>

definition spec_readUint16BE :: "byte list \<Rightarrow> nat \<Rightarrow> nat" where
  "spec_readUint16BE bytes offset = 256 * unat (bytes ! offset) + unat (bytes ! (offset + 1))"

text \<open>
  The variable-length heuristic in the words of the specification (section 4.4, step 3),
  as a relation between the state \<open>(end, accumulator)\<close> at some point of the scan and
  the state at its end: while \<open>end - 2 \<ge> 1\<close>, the value read at \<open>end - 2\<close> is
  accepted if it is a key of the registry or no id has been accepted yet; otherwise the
  scan stops.
\<close>

inductive spec_scan :: "byte list \<Rightarrow> nat \<Rightarrow> nat list \<Rightarrow> nat \<Rightarrow> nat list \<Rightarrow> bool"
  for body :: "byte list" where
  accept:
    "int e - 2 \<ge> 1 \<Longrightarrow> v = spec_readUint16BE body (e - 2) \<Longrightarrow>
     v \<in> dom GASZIP_CHAINS \<or> acc = [] \<Longrightarrow>
     spec_scan body (e - 2) (acc @ [v]) e' acc' \<Longrightarrow>
     spec_scan body e acc e' acc'"
| stop:
    "int e - 2 \<ge> 1 \<Longrightarrow> v = spec_readUint16BE body (e - 2) \<Longrightarrow>
     \<not> (v \<in> dom GASZIP_CHAINS \<or> acc = []) \<Longrightarrow>
     spec_scan body e acc e acc"
| exhausted:
    "\<not> int e - 2 \<ge> 1 \<Longrightarrow> spec_scan body e acc e acc"

code_pred spec_scan .

text \<open>Encoders that throw on every input, for the examples.\<close>

definition failing_codecs :: codecs where
  "failing_codecs =
     \<lparr>bs58_encode = (\<lambda>bytes. None), xrpb58_encode = (\<lambda>bytes. None),
      bech32_toWords = (\<lambda>bytes. None), bech32_encode = (\<lambda>hrp words. None)\<rparr>"

section \<open>Properties\<close>

subsection \<open>Byte codec\<close>

lemma byteAt_lt: "byteAt bytes i < 256"
  using unsigned_less [of "bytes ! i", where 'a = nat] by (simp add: byteAt_def)

lemma push_bit_or_add:
  fixes a b :: nat
  assumes "b < 256"
  shows "push_bit 8 a OR b = 256 * a + b"
proof -
  have b: "take_bit 8 b = b"
    using assms by (simp add: take_bit_nat_eq_self)
  have "push_bit 8 a AND take_bit 8 b = 0"
    by (simp add: bit_eq_iff bit_simps)
  then have "push_bit 8 a + b = push_bit 8 a OR b"
    using b disjunctive_add_eq_or [of "push_bit 8 a" b] by simp
  then show ?thesis
    by (simp add: push_bit_eq_mult)
qed

lemma readU16BE_eq: "readU16BE bytes offset = 256 * byteAt bytes offset + byteAt bytes (offset + 1)"
  unfolding readU16BE_def by (rule push_bit_or_add) (rule byteAt_lt)

lemma slice_l_0: "slice_l xs 0 n = take n xs"
  by (simp add: slice_l_def)

lemma hexPairs_map:
  "length h mod 2 = 0 \<Longrightarrow>
   map (\<lambda>i. toUint8 (parseInt16 (slice_l h (i * 2) (i * 2 + 2)))) [0 ..< length h div 2] = hexPairs h"
proof (induction h rule: hexPairs.induct)
  case (1 a b rest)
  have "[0 ..< length (a # b # rest) div 2] = 0 # map Suc [0 ..< length rest div 2]"
    by (simp add: upt_conv_Cons map_Suc_upt del: upt_Suc)
  moreover have "\<And>i. slice_l (a # b # rest) (Suc i * 2) (Suc i * 2 + 2) = slice_l rest (i * 2) (i * 2 + 2)"
    by (simp add: slice_l_def)
  moreover have "slice_l (a # b # rest) (0 * 2) (0 * 2 + 2) = [a, b]"
    by (simp add: slice_l_def)
  ultimately show ?case using 1 by (simp add: comp_def)
qed simp_all

lemma hexToBytes_0x:
  "hexToBytes (CHR ''0'' # CHR ''x'' # h) =
     (if length h mod 2 \<noteq> 0 then Inl InvalidHexLength else Inr (hexPairs h))"
  using hexPairs_map [of h] by (simp add: hexToBytes_def startsWith_def)

lemma assertHex_None_iff:
  "assertHex input = None \<longleftrightarrow> (\<exists>h. input = CHR ''0'' # CHR ''x'' # h \<and> length h mod 2 = 0)"
proof (cases input)
  case Nil
  then show ?thesis by (simp add: assertHex_def startsWith_def)
next
  case (Cons a xs)
  show ?thesis
  proof (cases xs)
    case Nil
    with Cons show ?thesis by (simp add: assertHex_def startsWith_def)
  next
    case (Cons b h)
    with \<open>input = a # xs\<close> show ?thesis
      by (auto simp add: assertHex_def startsWith_def)
  qed
qed

lemma u16s_drop:
  "i < length tail \<Longrightarrow> u16s (drop i tail) = readU16BE tail i # u16s (drop (i + 2) tail)"
proof -
  assume i: "i < length tail"
  show ?thesis
  proof (cases "i + 1 < length tail")
    case True
    then have "drop i tail = tail ! i # tail ! (i + 1) # drop (i + 2) tail"
      using i by (metis Cons_nth_drop_Suc Suc_eq_plus1 add_2_eq_Suc')
    then show ?thesis using True i by (simp add: readU16BE_eq byteAt_def)
  next
    case False
    then have "drop i tail = [tail ! i]" "drop (i + 2) tail = []"
      using i by (simp_all add: Cons_nth_drop_Suc [symmetric])
    then show ?thesis using False i by (simp add: readU16BE_eq byteAt_def)
  qed
qed

lemma pushChainIds_eq:
  "pushChainIds tail i acc = acc @ u16s (drop i tail)"
proof (induction tail i acc rule: pushChainIds.induct)
  case (1 tail i chainIds)
  show ?case
  proof (cases "i < length tail")
    case True
    then show ?thesis
      using 1 by (subst pushChainIds.simps) (simp add: u16s_drop)
  next
    case False
    then show ?thesis
      by (subst pushChainIds.simps) simp
  qed
qed

lemma length_u16s: "length (u16s bs) = (length bs + 1) div 2"
  by (induction bs rule: u16s.induct) simp_all

lemma u16s_nth:
  "length bs mod 2 = 0 \<Longrightarrow> i < length bs div 2 \<Longrightarrow>
   u16s bs ! i = 256 * unat (bs ! (2 * i)) + unat (bs ! (2 * i + 1))"
proof (induction bs arbitrary: i rule: u16s.induct)
  case (1 a b rest)
  then show ?case by (cases i) simp_all
qed simp_all

subsection \<open>The backward scan\<close>

lemma scanTail_bounds:
  "scanTail body e acc = (e', acc') \<Longrightarrow> e' \<le> e \<and> (1 \<le> e \<longrightarrow> 1 \<le> e')"
proof (induction body e acc rule: scanTail.induct)
  case (1 body e chainIdsRev)
  show ?case
  proof (cases "int e - 2 \<ge> 1")
    case False
    with "1.prems" show ?thesis
      by (subst (asm) scanTail.simps) auto
  next
    case True
    show ?thesis
    proof (cases "GASZIP_CHAINS (readU16BE body (e - 2)) = None \<and> length chainIdsRev > 0")
      case stop: True
      with True "1.prems" show ?thesis
        by (subst (asm) scanTail.simps) (auto simp: Let_def)
    next
      case go: False
      with True "1.prems" have "scanTail body (e - 2) (chainIdsRev @ [readU16BE body (e - 2)]) = (e', acc')"
        by (subst (asm) scanTail.simps) (auto simp: Let_def)
      with "1.IH" [OF True refl refl] go have "e' \<le> e - 2 \<and> (1 \<le> e - 2 \<longrightarrow> 1 \<le> e')"
        by auto
      with True show ?thesis by auto
    qed
  qed
qed

lemma scanTail_known:
  "scanTail body e acc = (e', acc') \<Longrightarrow> \<forall>v\<in>set (tl acc). GASZIP_CHAINS v \<noteq> None \<Longrightarrow>
   \<forall>v\<in>set (tl acc'). GASZIP_CHAINS v \<noteq> None"
proof (induction body e acc rule: scanTail.induct)
  case (1 body e chainIdsRev)
  show ?case
  proof (cases "int e - 2 \<ge> 1")
    case False
    with "1.prems" show ?thesis
      by (subst (asm) scanTail.simps) auto
  next
    case True
    show ?thesis
    proof (cases "GASZIP_CHAINS (readU16BE body (e - 2)) = None \<and> length chainIdsRev > 0")
      case stop: True
      with True "1.prems" show ?thesis
        by (subst (asm) scanTail.simps) (auto simp: Let_def)
    next
      case go: False
      with True "1.prems" have "scanTail body (e - 2) (chainIdsRev @ [readU16BE body (e - 2)]) = (e', acc')"
        by (subst (asm) scanTail.simps) (auto simp: Let_def)
      moreover have "\<forall>v\<in>set (tl (chainIdsRev @ [readU16BE body (e - 2)])). GASZIP_CHAINS v \<noteq> None"
        using go "1.prems"(2) by (cases chainIdsRev) auto
      moreover have "\<not> (\<not> GASZIP_CHAINS (readU16BE body (e - 2)) \<noteq> None \<and> length chainIdsRev > 0)"
        using go by simp
      ultimately show ?thesis
        using "1.IH" [OF True refl refl] by blast
    qed
  qed
qed

lemma read_in_range:
  "offset + 1 < length bytes \<Longrightarrow> readU16BE bytes offset = spec_readUint16BE bytes offset"
  by (simp add: readU16BE_eq byteAt_def spec_readUint16BE_def)

lemma spec_scan_scanTail:
  "spec_scan body e acc e' acc' \<Longrightarrow> e \<le> length body \<Longrightarrow> scanTail body e acc = (e', acc')"
proof (induction rule: spec_scan.induct)
  case (accept e v acc e' acc')
  from accept.hyps(1,2) accept.prems have "readU16BE body (e - 2) = v"
    by (simp add: read_in_range)
  moreover from accept.IH accept.prems have "scanTail body (e - 2) (acc @ [v]) = (e', acc')"
    by simp
  ultimately show ?case
    using accept.hyps(1,3) by (subst scanTail.simps) (auto simp: Let_def dom_def)
next
  case (stop e v acc)
  from stop.hyps(1,2) stop.prems have "readU16BE body (e - 2) = v"
    by (simp add: read_in_range)
  then show ?case
    using stop.hyps(1,3) by (subst scanTail.simps) (auto simp: Let_def dom_def)
next
  case (exhausted e acc)
  then show ?case
    by (subst scanTail.simps) simp
qed

lemma scanTail_spec_scan:
  "scanTail body e acc = (e', acc') \<Longrightarrow> e \<le> length body \<Longrightarrow> spec_scan body e acc e' acc'"
proof (induction body e acc rule: scanTail.induct)
  case (1 body e chainIdsRev)
  show ?case
  proof (cases "int e - 2 \<ge> 1")
    case False
    with "1.prems" have "e' = e" "acc' = chainIdsRev"
      by (subst (asm) scanTail.simps, simp)+
    with False show ?thesis by (simp add: spec_scan.exhausted)
  next
    case True
    with "1.prems"(2) have rd: "readU16BE body (e - 2) = spec_readUint16BE body (e - 2)"
      by (simp add: read_in_range)
    show ?thesis
    proof (cases "GASZIP_CHAINS (readU16BE body (e - 2)) = None \<and> length chainIdsRev > 0")
      case halt: True
      with True "1.prems" have "e' = e" "acc' = chainIdsRev"
        by (subst (asm) scanTail.simps, simp add: Let_def)+
      moreover have "spec_scan body e chainIdsRev e chainIdsRev"
        using True halt rd by (intro spec_scan.stop [OF True refl]) (auto simp: dom_def)
      ultimately show ?thesis by simp
    next
      case go: False
      with True "1.prems" have "scanTail body (e - 2) (chainIdsRev @ [readU16BE body (e - 2)]) = (e', acc')"
        by (subst (asm) scanTail.simps) (auto simp: Let_def)
      moreover have "e - 2 \<le> length body"
        using "1.prems"(2) by simp
      moreover have "\<not> (\<not> GASZIP_CHAINS (readU16BE body (e - 2)) \<noteq> None \<and> length chainIdsRev > 0)"
        using go by simp
      ultimately have "spec_scan body (e - 2) (chainIdsRev @ [readU16BE body (e - 2)]) e' acc'"
        using "1.IH" [OF True refl refl] by blast
      then have "spec_scan body (e - 2) (chainIdsRev @ [spec_readUint16BE body (e - 2)]) e' acc'"
        by (simp only: rd)
      then show ?thesis
        using go rd by (intro spec_scan.accept [OF True refl]) (auto simp: dom_def)
    qed
  qed
qed

subsection \<open>The cases of the splitter\<close>

lemma u16s_even:
  assumes "length bs mod 2 = 0"
  shows "u16s bs = map (\<lambda>i. 256 * unat (bs ! (2 * i)) + unat (bs ! (2 * i + 1))) [0 ..< length bs div 2]"
proof (rule nth_equalityI)
  show "length (u16s bs) = length (map (\<lambda>i. 256 * unat (bs ! (2 * i)) + unat (bs ! (2 * i + 1))) [0 ..< length bs div 2])"
    using assms by (simp add: length_u16s) presburger
next
  fix i assume "i < length (u16s bs)"
  then have "i < length bs div 2"
    using assms by (simp add: length_u16s) presburger
  then show "u16s bs ! i = map (\<lambda>i. 256 * unat (bs ! (2 * i)) + unat (bs ! (2 * i + 1))) [0 ..< length bs div 2] ! i"
    using assms by (simp add: u16s_nth)
qed

lemma split_fixed:
  assumes "fixedLen p = Some L"
  shows "splitAddressAndChains p body =
     (if length body < L then Inl CalldataTooShort
      else if (length body - L) mod 2 \<noteq> 0 then Inl ChainTailNotMultipleOf2
      else Inr \<lparr>addressBytes = take L body, chainIds = u16s (drop L body), leftovers = None\<rparr>)"
  using assms by (simp add: splitAddressAndChains_def Let_def slice_l_0 pushChainIds_eq)

lemma split_fast:
  assumes "length body \<ge> 32" "(length body - 32) mod 2 = 0"
  shows "splitAddressAndChains 0x03 body =
     Inr \<lparr>addressBytes = take 32 body, chainIds = u16s (drop 32 body), leftovers = None\<rparr>"
  using assms by (simp add: splitAddressAndChains_def fixedLen_def slice_l_0 pushChainIds_eq)

lemma split_heuristic:
  assumes "fixedLen p = None" "\<not> (p = 0x03 \<and> length body \<ge> 32 \<and> (length body - 32) mod 2 = 0)"
  shows "splitAddressAndChains p body =
     Inr \<lparr>addressBytes = take (fst (scanTail body (length body) [])) body,
          chainIds = rev (snd (scanTail body (length body) [])), leftovers = None\<rparr>"
proof -
  obtain e acc where sc: "scanTail body (length body) [] = (e, acc)"
    by (cases "scanTail body (length body) []")
  show ?thesis
    unfolding splitAddressAndChains_def using assms sc by (auto simp: slice_l_0)
qed

lemma split_leftovers: "splitAddressAndChains p body = Inr s \<Longrightarrow> leftovers s = None"
proof (cases "fixedLen p")
  case (Some L)
  assume "splitAddressAndChains p body = Inr s"
  with Some show ?thesis
    by (auto simp: split_fixed split: if_splits)
next
  case None
  assume s: "splitAddressAndChains p body = Inr s"
  show ?thesis
  proof (cases "p = 0x03 \<and> length body \<ge> 32 \<and> (length body - 32) mod 2 = 0")
    case True
    with s show ?thesis by (auto simp: split_fast)
  next
    case False
    with s None show ?thesis by (auto simp: split_heuristic)
  qed
qed

lemma fixedLen_None_5: "fixedLen 0x05 = None"
  by (simp add: fixedLen_def)

lemma fixedLen_None_3: "fixedLen 0x03 = None"
  by (simp add: fixedLen_def)

subsection \<open>The registry\<close>

lemma registry_keys: "list_all (\<lambda>p. 5 \<le> fst p \<and> fst p \<le> 504) GASZIP_CHAINS_table"
  unfolding GASZIP_CHAINS_table_def by (simp only: list.pred_inject fst_conv) simp

lemma registry_range: "GASZIP_CHAINS v \<noteq> None \<Longrightarrow> 5 \<le> v \<and> v \<le> 504"
proof -
  assume "GASZIP_CHAINS v \<noteq> None"
  then obtain i where "(v, i) \<in> set GASZIP_CHAINS_table"
    by (auto simp: GASZIP_CHAINS_def dest: map_of_SomeD)
  with registry_keys show ?thesis by (auto simp: list_all_iff)
qed

lemma registry_none_large: "504 < v \<Longrightarrow> GASZIP_CHAINS v = None"
proof (rule ccontr)
  assume "504 < v" and "GASZIP_CHAINS v \<noteq> None"
  then show False using registry_range [of v] by simp
qed

lemma registry_none_small: "v < 5 \<Longrightarrow> GASZIP_CHAINS v = None"
proof (rule ccontr)
  assume "v < 5" and "GASZIP_CHAINS v \<noteq> None"
  then show False using registry_range [of v] by simp
qed

lemma registry_54: "GASZIP_CHAINS 54 = Some \<lparr>name = ''Base Mainnet'', nativeId = 8453\<rparr>"
  by (simp add: GASZIP_CHAINS_def GASZIP_CHAINS_table_def)

subsection \<open>The decoder after a successful split\<close>

lemma toString16_digit: "n < 16 \<Longrightarrow> toString16 n = [hexDigit n]"
  by (simp add: toString16.simps)

lemma padStart_one: "padStart [x] 2 c = [c, x]"
  by (simp add: padStart_def)

lemmas prefix_text_eval = toString16_digit padStart_one hexDigit_def

lemma decode_split_error:
  assumes "assertHex input = None" "hexToBytes input = Inr (p # body)"
    and "splitAddressAndChains p body = Inl e"
  shows "decodeGasZipCalldata c input = Inl e"
  using assms by (simp add: decodeGasZipCalldata_def)

lemma decode_SELF:
  assumes "assertHex input = None" "hexToBytes input = Inr (0x01 # body)"
    and "splitAddressAndChains 0x01 body = Inr s"
  shows "decodeGasZipCalldata c input =
    Inr \<lparr>type_d = SELF, raw = input, prefix_d = ''0x01'', destination = empty_destination,
         chainIds_d = map mapChain (chainIds s), leftoversHex = None\<rparr>"
  using assms split_leftovers [OF assms(3)]
  by (simp add: decodeGasZipCalldata_def Let_def prefix_text_eval)

lemma decode_EVM:
  assumes "assertHex input = None" "hexToBytes input = Inr (0x02 # body)"
    and "splitAddressAndChains 0x02 body = Inr s"
  shows "decodeGasZipCalldata c input =
    (if length (addressBytes s) \<noteq> 20 then Inl EvmAddressLength
     else Inr \<lparr>type_d = EVM, raw = input, prefix_d = ''0x02'',
         destination = empty_destination\<lparr>evm := Some (bytesToHex (addressBytes s))\<rparr>,
         chainIds_d = map mapChain (chainIds s), leftoversHex = None\<rparr>)"
  using assms split_leftovers [OF assms(3)]
  by (simp add: decodeGasZipCalldata_def Let_def prefix_text_eval)

lemma decode_MOVE:
  assumes "assertHex input = None" "hexToBytes input = Inr (0x04 # body)"
    and "splitAddressAndChains 0x04 body = Inr s"
  shows "decodeGasZipCalldata c input =
    (if length (addressBytes s) \<noteq> 32 then Inl MoveAddressLength
     else Inr \<lparr>type_d = MOVE, raw = input, prefix_d = ''0x04'',
         destination = empty_destination\<lparr>move := Some (bytesToHex (addressBytes s))\<rparr>,
         chainIds_d = map mapChain (chainIds s), leftoversHex = None\<rparr>)"
  using assms split_leftovers [OF assms(3)]
  by (simp add: decodeGasZipCalldata_def Let_def prefix_text_eval)

lemma decode_INITIA:
  assumes "assertHex input = None" "hexToBytes input = Inr (0x06 # body)"
    and "splitAddressAndChains 0x06 body = Inr s"
  shows "decodeGasZipCalldata c input =
    (if length (addressBytes s) \<noteq> 20 then Inl InitiaAddressLength
     else Inr \<lparr>type_d = INITIA, raw = input, prefix_d = ''0x06'',
         destination = empty_destination
           \<lparr>initia := (case bech32_toWords c (addressBytes s) of
                         None \<Rightarrow> None
                       | Some words \<Rightarrow> bech32_encode c ''init'' words),
            initiaHex := Some (bytesToHex (addressBytes s))\<rparr>,
         chainIds_d = map mapChain (chainIds s), leftoversHex = None\<rparr>)"
  using assms split_leftovers [OF assms(3)]
  by (simp add: decodeGasZipCalldata_def Let_def prefix_text_eval)

lemma decode_BASE58:
  assumes "assertHex input = None" "hexToBytes input = Inr (0x03 # body)"
    and "splitAddressAndChains 0x03 body = Inr s"
  shows "decodeGasZipCalldata c input =
    Inr \<lparr>type_d = BASE58, raw = input, prefix_d = ''0x03'',
         destination = empty_destination
           \<lparr>base58 := Some (tryEncode '''' (bs58_encode c (addressBytes s))),
            base58Hex := Some (bytesToHex (addressBytes s)),
            solanaLike := Some (length (addressBytes s) = 32)\<rparr>,
         chainIds_d = map mapChain (chainIds s), leftoversHex = None\<rparr>"
  using assms split_leftovers [OF assms(3)]
  by (simp add: decodeGasZipCalldata_def Let_def prefix_text_eval)

lemma decode_XRP:
  assumes "assertHex input = None" "hexToBytes input = Inr (0x05 # body)"
    and "splitAddressAndChains 0x05 body = Inr s"
  shows "decodeGasZipCalldata c input =
    Inr \<lparr>type_d = XRP, raw = input, prefix_d = ''0x05'',
         destination = empty_destination
           \<lparr>xrp := Some (tryEncode '''' (xrpb58_encode c (addressBytes s)))\<rparr>,
         chainIds_d = map mapChain (chainIds s), leftoversHex = None\<rparr>"
  using assms split_leftovers [OF assms(3)]
  by (simp add: decodeGasZipCalldata_def Let_def prefix_text_eval)

lemma decode_UNKNOWN:
  assumes "assertHex input = None" "hexToBytes input = Inr (p # body)"
    and "p \<notin> {0x01, 0x02, 0x03, 0x04, 0x05, 0x06}"
    and "splitAddressAndChains p body = Inr s"
  shows "decodeGasZipCalldata c input =
    Inr \<lparr>type_d = UNKNOWN, raw = input,
         prefix_d = ''0x'' @ padStart (toString16 (unat p)) 2 CHR ''0'',
         destination = empty_destination,
         chainIds_d = map mapChain (chainIds s), leftoversHex = None\<rparr>"
  using assms split_leftovers [OF assms(4)]
  by (simp add: decodeGasZipCalldata_def Let_def)

lemmas hex_eval = hexToBytes_0x parseInt16_def isWhiteSpace_def
  hexDigitValue_def startsWith_def toUint8_def Let_def

lemma assertHex_0x:
  "assertHex (CHR ''0'' # CHR ''x'' # h) = (if length h mod 2 \<noteq> 0 then Some ExpectedHexString else None)"
  by (simp add: assertHex_def startsWith_def)

lemma u16s_drop_even:
  assumes "length body = L + 2 * k"
  shows "u16s (drop L body) =
     map (\<lambda>i. 256 * unat (body ! (L + 2 * i)) + unat (body ! (L + 2 * i + 1))) [0 ..< k]"
proof -
  have len: "length (drop L body) = 2 * k"
    using assms by simp
  then have "length (drop L body) mod 2 = 0" "length (drop L body) div 2 = k"
    by simp_all
  with u16s_even [of "drop L body"]
  have "u16s (drop L body) =
     map (\<lambda>i. 256 * unat (drop L body ! (2 * i)) + unat (drop L body ! (2 * i + 1))) [0 ..< k]"
    by simp
  also have "\<dots> = map (\<lambda>i. 256 * unat (body ! (L + 2 * i)) + unat (body ! (L + 2 * i + 1))) [0 ..< k]"
    using assms by (intro map_cong refl) (simp add: add.assoc)
  finally show ?thesis .
qed

lemma fixedLen_cases:
  "(p, L) \<in> {(0x01, 0), (0x02, 20), (0x04, 32), (0x06, 20)} \<Longrightarrow> fixedLen p = Some L"
  by (auto simp: fixedLen_def)

lemma id_m_mapChain [simp]: "id_m (mapChain i) = i"
  by (simp add: mapChain_def)

lemma decode_fixed_ok:
  assumes "(p, L) \<in> {(0x01, 0), (0x02, 20), (0x04, 32), (0x06, 20)}"
    and "assertHex input = None" and "hexToBytes input = Inr (p # body)"
    and "splitAddressAndChains p body = Inr s"
  shows "\<exists>r. decodeGasZipCalldata c input = Inr r \<and>
           chainIds_d r = map mapChain (chainIds s) \<and>
           (p = 0x01 \<longrightarrow> type_d r = SELF \<and> destination r = empty_destination) \<and>
           (p = 0x02 \<longrightarrow> type_d r = EVM \<and> evm (destination r) = Some (bytesToHex (take L body))) \<and>
           (p = 0x04 \<longrightarrow> type_d r = MOVE \<and> move (destination r) = Some (bytesToHex (take L body))) \<and>
           (p = 0x06 \<longrightarrow> type_d r = INITIA \<and> initiaHex (destination r) = Some (bytesToHex (take L body)))"
proof -
  have fl: "fixedLen p = Some L"
    using assms(1) by (rule fixedLen_cases)
  from assms(4) have addr: "addressBytes s = take L body" and len: "L \<le> length body"
    by (auto simp: split_fixed [OF fl] split: if_splits)
  then have len': "length (addressBytes s) = L"
    by simp
  consider "p = 0x01" "L = 0" | "p = 0x02" "L = 20" | "p = 0x04" "L = 32" | "p = 0x06" "L = 20"
    using assms(1) by auto
  then show ?thesis
  proof cases
    case 1
    with decode_SELF [of input body s c] assms(2-4) show ?thesis
      by simp
  next
    case 2
    with decode_EVM [of input body s c] assms(2-4) len' addr show ?thesis
      by simp
  next
    case 3
    with decode_MOVE [of input body s c] assms(2-4) len' addr show ?thesis
      by simp
  next
    case 4
    with decode_INITIA [of input body s c] assms(2-4) len' addr show ?thesis
      by simp
  qed
qed

lemma split_other:
  assumes "p \<notin> {0x01, 0x02, 0x03, 0x04, 0x05, 0x06}"
  shows "splitAddressAndChains p body =
     Inr \<lparr>addressBytes = take (fst (scanTail body (length body) [])) body,
          chainIds = rev (snd (scanTail body (length body) [])), leftovers = None\<rparr>"
proof -
  have "fixedLen p = None"
    using assms by (simp add: fixedLen_def)
  moreover have "\<not> (p = 0x03 \<and> length body \<ge> 32 \<and> (length body - 32) mod 2 = 0)"
    using assms by simp
  ultimately show ?thesis by (rule split_heuristic)
qed

lemma decode_split_ok:
  assumes "assertHex input = None" and "hexToBytes input = Inr (p # body)"
    and "splitAddressAndChains p body = Inr s"
  shows "\<exists>r. decodeGasZipCalldata c input = Inr r"
proof -
  consider (fixed) L :: nat where "(p, L) \<in> {(0x01, 0), (0x02, 20), (0x04, 32), (0x06, 20)}"
    | (b58) "p = 0x03" | (xrp) "p = 0x05"
    | (other) "p \<notin> {0x01, 0x02, 0x03, 0x04, 0x05, 0x06}"
    by auto
  then show ?thesis
  proof cases
    case fixed
    from decode_fixed_ok [OF fixed assms, of c] show ?thesis by blast
  next
    case b58
    with decode_BASE58 [of input body s c] assms show ?thesis by simp
  next
    case xrp
    with decode_XRP [of input body s c] assms show ?thesis by simp
  next
    case other
    from decode_UNKNOWN [OF assms(1,2) other assms(3), of c] show ?thesis by simp
  qed
qed

lemma split_error_kinds:
  "splitAddressAndChains p body = Inl e \<Longrightarrow> e = CalldataTooShort \<or> e = ChainTailNotMultipleOf2"
  by (auto simp: splitAddressAndChains_def Let_def split: option.splits if_splits prod.splits)

subsection \<open>Which inputs are rejected as not hexadecimal\<close>

text \<open>
  The decoder fails with an error of kind \<open>InvalidHexEncoding\<close> exactly on the inputs
  without the prefix \<open>0x\<close> or of odd length.
\<close>

lemma invalid_hex_iff:
  "(\<exists>e. decodeGasZipCalldata c input = Inl e \<and> kind_of e = InvalidHexEncoding) \<longleftrightarrow>
   \<not> startsWith input ''0x'' \<or> length input mod 2 \<noteq> 0"
proof (cases "assertHex input")
  case (Some e)
  then show ?thesis
    by (auto simp: decodeGasZipCalldata_def assertHex_def split: if_splits)
next
  case None
  then obtain h where input: "input = CHR ''0'' # CHR ''x'' # h" and even: "length h mod 2 = 0"
    by (auto simp: assertHex_None_iff)
  have ok: "\<not> (\<not> startsWith input ''0x'' \<or> length input mod 2 \<noteq> 0)"
    using None by (auto simp: assertHex_def split: if_splits)
  have hb: "hexToBytes input = Inr (hexPairs h)"
    using input even by (simp add: hexToBytes_0x)
  have "\<not> (\<exists>e. decodeGasZipCalldata c input = Inl e \<and> kind_of e = InvalidHexEncoding)"
  proof (cases "hexPairs h")
    case Nil
    with None hb show ?thesis
      by (simp add: decodeGasZipCalldata_def)
  next
    case (Cons p body)
    show ?thesis
    proof (cases "splitAddressAndChains p body")
      case (Inl e)
      from decode_split_error [OF None _ Inl, of c] hb Cons split_error_kinds [OF Inl]
      show ?thesis by auto
    next
      case (Inr s)
      from decode_split_ok [OF None _ Inr, of c] hb Cons show ?thesis
        by auto
    qed
  qed
  with ok show ?thesis by blast
qed

subsection \<open>Every byte sequence is the bytes of an input\<close>

text \<open>
  \<^const>\<open>bytesToHex\<close> of a byte sequence passes \<^const>\<open>assertHex\<close> and is read back by
  \<^const>\<open>hexToBytes\<close> as the same bytes, so the hypotheses on the input in the theorems
  below can be met for every prefix and body.
\<close>

lemma digit_cases:
  assumes "d < (16 :: nat)"
  obtains "d = 0" | "d = 1" | "d = 2" | "d = 3" | "d = 4" | "d = 5" | "d = 6" | "d = 7"
    | "d = 8" | "d = 9" | "d = 10" | "d = 11" | "d = 12" | "d = 13" | "d = 14" | "d = 15"
proof -
  have "d \<in> {0 ..< 16}"
    using assms by simp
  also have "{0 ..< 16 :: nat} = {0, 1, 2, 3, 4, 5, 6, 7, 8, 9, 10, 11, 12, 13, 14, 15}"
    by (simp add: atLeastLessThan_nat_numeral insert_commute)
  finally show ?thesis
    using that by blast
qed

lemma parseInt16_hexDigits:
  assumes "a < 16" and "b < 16"
  shows "parseInt16 [hexDigit a, hexDigit b] = Some (int (16 * a + b))"
proof -
  have v: "hexDigitValue (hexDigit d) = Some d" if "d < 16" for d
    using that by (rule digit_cases) (simp_all add: hexDigit_def hexDigitValue_def)
  have w: "\<not> isWhiteSpace (hexDigit d)" if "d < 16" for d
    using that by (rule digit_cases) (simp_all add: hexDigit_def isWhiteSpace_def)
  have s: "hexDigit d \<noteq> CHR ''-''" "hexDigit d \<noteq> CHR ''+''" "hexDigit d \<noteq> CHR ''x''"
    "hexDigit d \<noteq> CHR ''X''" if "d < 16" for d
    using that by (rule digit_cases; simp add: hexDigit_def)+
  show ?thesis
    using assms by (simp add: parseInt16_def Let_def startsWith_def v w s)
qed

lemma byte_text:
  "padStart (toString16 (unat (x :: byte))) 2 CHR ''0'' =
     [hexDigit (unat x div 16), hexDigit (unat x mod 16)]"
proof -
  have lt: "unat x < 256"
    using unsigned_less [of x, where 'a = nat] by simp
  show ?thesis
  proof (cases "unat x < 16")
    case True
    then show ?thesis
      by (simp add: toString16.simps padStart_def hexDigit_def)
  next
    case False
    with lt have "unat x div 16 < 16" by simp
    with False show ?thesis
      by (subst toString16.simps) (simp add: toString16_digit padStart_def)
  qed
qed

lemma hexPairs_bytes:
  "hexPairs (concat (map (\<lambda>b. padStart (toString16 (unat b)) 2 CHR ''0'') bs)) = bs"
proof (induction bs)
  case Nil
  show ?case by simp
next
  case (Cons x bs)
  have lt: "unat x < 256"
    using unsigned_less [of x, where 'a = nat] by simp
  then have "unat x div 16 < 16" "unat x mod 16 < 16"
    by simp_all
  then have "parseInt16 [hexDigit (unat x div 16), hexDigit (unat x mod 16)] = Some (int (unat x))"
    by (simp add: parseInt16_hexDigits)
  then have "toUint8 (parseInt16 [hexDigit (unat x div 16), hexDigit (unat x mod 16)]) = x"
    by (simp add: toUint8_def)
  with Cons show ?case
    by (simp add: byte_text)
qed

lemma length_bytes_text:
  "length (concat (map (\<lambda>b. padStart (toString16 (unat b)) 2 CHR ''0'') (bs :: byte list))) = 2 * length bs"
  by (induction bs) (simp_all add: byte_text)

lemma hexToBytes_bytesToHex: "hexToBytes (bytesToHex bs) = Inr bs"
  by (simp add: bytesToHex_def hexToBytes_0x hexPairs_bytes length_bytes_text)

lemma assertHex_bytesToHex: "assertHex (bytesToHex bs) = None"
  by (simp add: bytesToHex_def assertHex_0x length_bytes_text)

section \<open>The claims\<close>

lemmas scan_eval = scanTail.simps Let_def readU16BE_eq byteAt_def registry_54
  registry_none_large registry_none_small

subsection \<open>The variable-length heuristic\<close>

text \<open>
  Claim C2. On the heuristic path (prefix 0x05 always, prefix 0x03 when the condition of
  the deterministic fast path is false) the split is the one the specification's
  algorithm computes: its scan, started at \<open>end = length body\<close> with an empty
  accumulator, ends in exactly one state \<open>(e, acc)\<close>; the address bytes are
  \<open>body[0:e]\<close> and the chain ids are the accumulator reversed.
\<close>

theorem heuristic_split_follows_spec:
  assumes "prefix = 0x05 \<or> prefix = 0x03 \<and> \<not> (length body \<ge> 32 \<and> (length body - 32) mod 2 = 0)"
  shows "\<exists>e acc. spec_scan body (length body) [] e acc \<and>
           (\<forall>e' acc'. spec_scan body (length body) [] e' acc' \<longrightarrow> e' = e \<and> acc' = acc) \<and>
           splitAddressAndChains prefix body =
             Inr \<lparr>addressBytes = take e body, chainIds = rev acc, leftovers = None\<rparr>"
proof -
  obtain e acc where sc: "scanTail body (length body) [] = (e, acc)"
    by (cases "scanTail body (length body) []")
  have none: "fixedLen prefix = None"
    using assms by (auto simp: fixedLen_def)
  have slow: "\<not> (prefix = 0x03 \<and> length body \<ge> 32 \<and> (length body - 32) mod 2 = 0)"
    using assms by auto
  have "spec_scan body (length body) [] e acc"
    using sc by (rule scanTail_spec_scan) simp
  moreover have "\<forall>e' acc'. spec_scan body (length body) [] e' acc' \<longrightarrow> e' = e \<and> acc' = acc"
    using sc by (auto dest!: spec_scan_scanTail)
  moreover have "splitAddressAndChains prefix body =
      Inr \<lparr>addressBytes = take e body, chainIds = rev acc, leftovers = None\<rparr>"
    using split_heuristic [OF none slow] sc by simp
  ultimately show ?thesis by blast
qed

text \<open>
  The theorem at prefix 0x05 and a body of seven bytes: 0x1234 is not registered and is
  accepted as the first value, 0x0036 is registered, 0xFFFF stops the scan.
\<close>

theorem heuristic_split_follows_spec_witness:
  "spec_scan [0xAA, 0xFF, 0xFF, 0x00, 0x36, 0x12, 0x34] 7 [] 3 [4660, 54] \<and>
   splitAddressAndChains 0x05 [0xAA, 0xFF, 0xFF, 0x00, 0x36, 0x12, 0x34] =
     Inr \<lparr>addressBytes = [0xAA, 0xFF, 0xFF], chainIds = [54, 4660], leftovers = None\<rparr>"
proof -
  let ?B = "[0xAA, 0xFF, 0xFF, 0x00, 0x36, 0x12, 0x34] :: byte list"
  have len: "length ?B = 7"
    by simp
  have sc: "scanTail ?B 7 [] = (3, [4660, 54])"
    by (simp add: scan_eval)
  obtain e acc where 1: "spec_scan ?B 7 [] e acc"
    and 2: "splitAddressAndChains 0x05 ?B =
      Inr \<lparr>addressBytes = take e ?B, chainIds = rev acc, leftovers = None\<rparr>"
    using heuristic_split_follows_spec [of "0x05" ?B, unfolded len] by auto
  have "7 \<le> length ?B"
    by simp
  from spec_scan_scanTail [OF 1 this] sc have "e = 3" "acc = [4660, 54]"
    by simp_all
  with 1 2 show ?thesis by simp
qed

text \<open>
  Claim C7. For prefix 0x05 and a body of at least three bytes, whatever its content, the
  split succeeds and leaves at least one address byte.
\<close>

theorem heuristic_keeps_address_byte:
  assumes "length body \<ge> 3"
  shows "\<exists>s. splitAddressAndChains 0x05 body = Inr s \<and> length (addressBytes s) \<ge> 1"
proof -
  obtain e acc where sc: "scanTail body (length body) [] = (e, acc)"
    by (cases "scanTail body (length body) []")
  from scanTail_bounds [OF sc] assms have "1 \<le> e" "e \<le> length body"
    by auto
  then have "length (take e body) \<ge> 1"
    by simp
  moreover have "splitAddressAndChains 0x05 body =
      Inr \<lparr>addressBytes = take e body, chainIds = rev acc, leftovers = None\<rparr>"
    using split_heuristic [OF fixedLen_None_5, of body] sc by simp
  ultimately show ?thesis by simp
qed

text \<open>
  The theorem at a body of five bytes whose two trailing pairs are both registered: the
  scan stops at the loop condition and one byte is left.
\<close>

theorem heuristic_keeps_address_byte_witness:
  "splitAddressAndChains 0x05 [0x00, 0x00, 0x36, 0x00, 0x36] =
     Inr \<lparr>addressBytes = [0x00], chainIds = [54, 54], leftovers = None\<rparr> \<and>
   length [0x00 :: byte] \<ge> 1"
proof -
  let ?B = "[0x00, 0x00, 0x36, 0x00, 0x36] :: byte list"
  have "3 \<le> length ?B" by simp
  from heuristic_keeps_address_byte [OF this]
  obtain s where "splitAddressAndChains 0x05 ?B = Inr s" "length (addressBytes s) \<ge> 1"
    by blast
  moreover have "splitAddressAndChains 0x05 ?B =
     Inr \<lparr>addressBytes = [0x00], chainIds = [54, 54], leftovers = None\<rparr>"
    by (simp add: split_heuristic fixedLen_None_5 scan_eval)
  ultimately show ?thesis by simp
qed

text \<open>
  Claim C9. In the chain-id list of the heuristic path, every entry but the last is a
  key of the registry; the last one, the first value the scan read, need not be.
\<close>

theorem heuristic_only_last_unregistered:
  assumes "prefix = 0x05 \<or> prefix = 0x03 \<and> \<not> (length body \<ge> 32 \<and> (length body - 32) mod 2 = 0)"
  shows "\<exists>s. splitAddressAndChains prefix body = Inr s \<and>
           (\<forall>v \<in> set (butlast (chainIds s)). v \<in> dom GASZIP_CHAINS)"
proof -
  obtain e acc where sc: "scanTail body (length body) [] = (e, acc)"
    by (cases "scanTail body (length body) []")
  have none: "fixedLen prefix = None"
    using assms by (auto simp: fixedLen_def)
  have slow: "\<not> (prefix = 0x03 \<and> length body \<ge> 32 \<and> (length body - 32) mod 2 = 0)"
    using assms by auto
  have "\<forall>v\<in>set (tl acc). GASZIP_CHAINS v \<noteq> None"
    using scanTail_known [OF sc] by simp
  then have "\<forall>v \<in> set (butlast (rev acc)). v \<in> dom GASZIP_CHAINS"
    by (auto simp: butlast_rev)
  moreover have "splitAddressAndChains prefix body =
      Inr \<lparr>addressBytes = take e body, chainIds = rev acc, leftovers = None\<rparr>"
    using split_heuristic [OF none slow] sc by simp
  ultimately show ?thesis by simp
qed

text \<open>
  The theorem at prefix 0x03 and a body of six bytes (shorter than 32, so the fast path
  does not apply): 54 is registered, the last entry 65535 is not.
\<close>

theorem heuristic_only_last_unregistered_witness:
  "splitAddressAndChains 0x03 [0x01, 0x02, 0x00, 0x36, 0xFF, 0xFF] =
     Inr \<lparr>addressBytes = [0x01, 0x02], chainIds = [54, 65535], leftovers = None\<rparr> \<and>
   54 \<in> dom GASZIP_CHAINS \<and> 65535 \<notin> dom GASZIP_CHAINS"
proof -
  let ?B = "[0x01, 0x02, 0x00, 0x36, 0xFF, 0xFF] :: byte list"
  have split: "splitAddressAndChains 0x03 ?B =
     Inr \<lparr>addressBytes = [0x01, 0x02], chainIds = [54, 65535], leftovers = None\<rparr>"
    by (simp add: split_heuristic fixedLen_None_3 scan_eval)
  have "0x03 = (0x05 :: byte) \<or> 0x03 = (0x03 :: byte) \<and> \<not> (length ?B \<ge> 32 \<and> (length ?B - 32) mod 2 = 0)"
    by simp
  from heuristic_only_last_unregistered [OF this] split
  have "\<forall>v \<in> set (butlast [54, 65535 :: nat]). v \<in> dom GASZIP_CHAINS"
    by simp
  then have "54 \<in> dom GASZIP_CHAINS" by simp
  moreover have "65535 \<notin> dom GASZIP_CHAINS"
    by (simp add: dom_def registry_none_large)
  ultimately show ?thesis using split by simp
qed

subsection \<open>The fixed-length formats\<close>

lemmas text_eval = bytesToHex_def padStart_def toString16.simps hexDigit_def

text \<open>
  Claim C1. For the prefixes 0x01, 0x02, 0x04 and 0x06, with address lengths 0, 20, 32 and
  20, a body of \<open>L + 2k\<close> bytes splits into the address bytes \<open>body[0:L]\<close> and
  exactly \<open>k\<close> chain ids, the \<open>i\<close>-th being the big-endian 16-bit value at offset
  \<open>2i\<close> of the tail; the decoder, on any input string with these bytes, returns a
  result with these chain ids in this order and, for 0x02, 0x04 and 0x06, the address in
  hexadecimal.
\<close>

theorem fixed_length_decode:
  assumes "(p, L) \<in> {(0x01, 0), (0x02, 20), (0x04, 32), (0x06, 20)}"
    and "length body = L + 2 * k"
  shows "splitAddressAndChains p body =
           Inr \<lparr>addressBytes = take L body,
                chainIds = map (\<lambda>i. 256 * unat (body ! (L + 2 * i)) + unat (body ! (L + 2 * i + 1))) [0 ..< k],
                leftovers = None\<rparr> \<and>
         (\<forall>c input. assertHex input = None \<longrightarrow> hexToBytes input = Inr (p # body) \<longrightarrow>
            (\<exists>r. decodeGasZipCalldata c input = Inr r \<and>
                 length (chainIds_d r) = k \<and>
                 map id_m (chainIds_d r) =
                   map (\<lambda>i. 256 * unat (body ! (L + 2 * i)) + unat (body ! (L + 2 * i + 1))) [0 ..< k] \<and>
                 (p = 0x01 \<longrightarrow> type_d r = SELF \<and> destination r = empty_destination) \<and>
                 (p = 0x02 \<longrightarrow> type_d r = EVM \<and> evm (destination r) = Some (bytesToHex (take L body))) \<and>
                 (p = 0x04 \<longrightarrow> type_d r = MOVE \<and> move (destination r) = Some (bytesToHex (take L body))) \<and>
                 (p = 0x06 \<longrightarrow> type_d r = INITIA \<and> initiaHex (destination r) = Some (bytesToHex (take L body)))))"
proof -
  let ?ids = "map (\<lambda>i. 256 * unat (body ! (L + 2 * i)) + unat (body ! (L + 2 * i + 1))) [0 ..< k]"
  let ?s = "\<lparr>addressBytes = take L body, chainIds = ?ids, leftovers = None\<rparr>"
  have fl: "fixedLen p = Some L"
    using assms(1) by (rule fixedLen_cases)
  have split: "splitAddressAndChains p body = Inr ?s"
    using assms(2) by (simp add: split_fixed [OF fl] u16s_drop_even [OF assms(2)])
  have "\<exists>r. decodeGasZipCalldata c input = Inr r \<and>
                 length (chainIds_d r) = k \<and>
                 map id_m (chainIds_d r) = ?ids \<and>
                 (p = 0x01 \<longrightarrow> type_d r = SELF \<and> destination r = empty_destination) \<and>
                 (p = 0x02 \<longrightarrow> type_d r = EVM \<and> evm (destination r) = Some (bytesToHex (take L body))) \<and>
                 (p = 0x04 \<longrightarrow> type_d r = MOVE \<and> move (destination r) = Some (bytesToHex (take L body))) \<and>
                 (p = 0x06 \<longrightarrow> type_d r = INITIA \<and> initiaHex (destination r) = Some (bytesToHex (take L body)))"
    if hex: "assertHex input = None" "hexToBytes input = Inr (p # body)" for c input
  proof -
    from decode_fixed_ok [OF assms(1) hex split, of c]
    obtain r where r: "decodeGasZipCalldata c input = Inr r"
      "chainIds_d r = map mapChain ?ids"
      "p = 0x01 \<longrightarrow> type_d r = SELF \<and> destination r = empty_destination"
      "p = 0x02 \<longrightarrow> type_d r = EVM \<and> evm (destination r) = Some (bytesToHex (take L body))"
      "p = 0x04 \<longrightarrow> type_d r = MOVE \<and> move (destination r) = Some (bytesToHex (take L body))"
      "p = 0x06 \<longrightarrow> type_d r = INITIA \<and> initiaHex (destination r) = Some (bytesToHex (take L body))"
      by auto
    have "length (chainIds_d r) = k" "map id_m (chainIds_d r) = ?ids"
      using r(2) by (simp_all add: comp_def)
    with r show ?thesis by blast
  qed
  with split show ?thesis by blast
qed

text \<open>
  The theorem at prefix 0x02, twenty bytes 0x11 and the chain id 0x0036: one chain id, 54.
\<close>

theorem fixed_length_decode_witness:
  "splitAddressAndChains 0x02
     [0x11, 0x11, 0x11, 0x11, 0x11, 0x11, 0x11, 0x11, 0x11, 0x11,
      0x11, 0x11, 0x11, 0x11, 0x11, 0x11, 0x11, 0x11, 0x11, 0x11, 0x00, 0x36] =
     Inr \<lparr>addressBytes =
            [0x11, 0x11, 0x11, 0x11, 0x11, 0x11, 0x11, 0x11, 0x11, 0x11,
             0x11, 0x11, 0x11, 0x11, 0x11, 0x11, 0x11, 0x11, 0x11, 0x11],
          chainIds = [54], leftovers = None\<rparr> \<and>
   (\<exists>r. decodeGasZipCalldata failing_codecs
          ''0x0211111111111111111111111111111111111111110036'' = Inr r \<and>
        length (chainIds_d r) = 1 \<and> map id_m (chainIds_d r) = [54] \<and> type_d r = EVM \<and>
        evm (destination r) = Some ''0x1111111111111111111111111111111111111111'')"
proof -
  let ?B = "[0x11, 0x11, 0x11, 0x11, 0x11, 0x11, 0x11, 0x11, 0x11, 0x11,
      0x11, 0x11, 0x11, 0x11, 0x11, 0x11, 0x11, 0x11, 0x11, 0x11, 0x00, 0x36] :: byte list"
  let ?I = "''0x0211111111111111111111111111111111111111110036''"
  have pl: "(0x02 :: byte, 20 :: nat) \<in> {(0x01, 0), (0x02, 20), (0x04, 32), (0x06, 20)}"
    by simp
  have len: "length ?B = 20 + 2 * 1"
    by simp
  have a: "assertHex ?I = None"
    by (simp add: assertHex_0x)
  have h: "hexToBytes ?I = Inr (0x02 # ?B)"
    by (simp add: hex_eval)
  have hx: "bytesToHex (take 20 ?B) = ''0x1111111111111111111111111111111111111111''"
    by (simp add: text_eval)
  from fixed_length_decode [OF pl len] a h hx show ?thesis
    by simp
qed

text \<open>
  Claim C6. For the same four prefixes, on an input with the bytes \<open>p # body\<close>: the
  decoder fails with an error of kind \<open>AddressLengthMismatch\<close> exactly when the body is
  shorter than \<open>L\<close>; when it is not shorter, the decoder fails with an error of kind
  \<open>MalformedChainTail\<close> exactly when \<open>length body - L\<close> is odd.
\<close>

theorem fixed_length_errors:
  assumes "(p, L) \<in> {(0x01, 0), (0x02, 20), (0x04, 32), (0x06, 20)}"
    and "assertHex input = None" and "hexToBytes input = Inr (p # body)"
  shows "((\<exists>e. decodeGasZipCalldata c input = Inl e \<and> kind_of e = AddressLengthMismatch)
            \<longleftrightarrow> length body < L) \<and>
         (length body \<ge> L \<longrightarrow>
            ((\<exists>e. decodeGasZipCalldata c input = Inl e \<and> kind_of e = MalformedChainTail)
               \<longleftrightarrow> (length body - L) mod 2 = 1))"
proof -
  have fl: "fixedLen p = Some L"
    using assms(1) by (rule fixedLen_cases)
  consider (short) "length body < L"
    | (odd) "length body \<ge> L" "(length body - L) mod 2 = 1"
    | (ok) "length body \<ge> L" "(length body - L) mod 2 = 0"
    by fastforce
  then show ?thesis
  proof cases
    case short
    then have "splitAddressAndChains p body = Inl CalldataTooShort"
      by (simp add: split_fixed [OF fl])
    from decode_split_error [OF assms(2,3) this] short show ?thesis
      by simp
  next
    case odd
    then have "splitAddressAndChains p body = Inl ChainTailNotMultipleOf2"
      by (simp add: split_fixed [OF fl])
    from decode_split_error [OF assms(2,3) this] odd show ?thesis
      by simp
  next
    case ok
    then obtain s where "splitAddressAndChains p body = Inr s"
      by (simp add: split_fixed [OF fl])
    from decode_fixed_ok [OF assms this, of c] ok show ?thesis
      by auto
  qed
qed

text \<open>
  The theorem at 0x02 followed by nineteen bytes (too short for the address), and at
  0x01 followed by one byte (an odd tail).
\<close>

theorem fixed_length_errors_witness:
  "(\<exists>e. decodeGasZipCalldata failing_codecs ''0x0211111111111111111111111111111111111111'' = Inl e \<and>
        kind_of e = AddressLengthMismatch) \<and>
   (\<exists>e. decodeGasZipCalldata failing_codecs ''0x0100'' = Inl e \<and> kind_of e = MalformedChainTail) \<and>
   \<not> (\<exists>e. decodeGasZipCalldata failing_codecs ''0x0100'' = Inl e \<and> kind_of e = AddressLengthMismatch)"
proof -
  let ?B = "[0x11, 0x11, 0x11, 0x11, 0x11, 0x11, 0x11, 0x11, 0x11, 0x11,
      0x11, 0x11, 0x11, 0x11, 0x11, 0x11, 0x11, 0x11, 0x11] :: byte list"
  let ?I = "''0x0211111111111111111111111111111111111111''"
  have pl: "(0x02 :: byte, 20 :: nat) \<in> {(0x01, 0), (0x02, 20), (0x04, 32), (0x06, 20)}"
    by simp
  have a: "assertHex ?I = None"
    by (simp add: assertHex_0x)
  have h: "hexToBytes ?I = Inr (0x02 # ?B)"
    by (simp add: hex_eval)
  have pl1: "(0x01 :: byte, 0 :: nat) \<in> {(0x01, 0), (0x02, 20), (0x04, 32), (0x06, 20)}"
    by simp
  have a1: "assertHex ''0x0100'' = None"
    by (simp add: assertHex_0x)
  have h1: "hexToBytes ''0x0100'' = Inr (0x01 # [0x00])"
    by (simp add: hex_eval)
  from fixed_length_errors [OF pl a h, of failing_codecs]
       fixed_length_errors [OF pl1 a1 h1, of failing_codecs]
  show ?thesis by simp
qed

subsection \<open>The variable-length formats at the public interface\<close>

text \<open>
  Claim C5. For prefix 0x03, a body of at least 32 bytes with an even number of bytes
  after the first 32 takes the deterministic path: the address is the first 32 bytes,
  so \<open>solanaLike\<close> is true, and the rest is read as big-endian 16-bit chain ids from left
  to right. With a body of exactly 34 bytes whose last two bytes are a key of the
  registry, the result has exactly one chain id, that value with its registry entry.
\<close>

theorem base58_fast_path:
  assumes "length body \<ge> 32" and "(length body - 32) mod 2 = 0"
  shows "splitAddressAndChains 0x03 body =
           Inr \<lparr>addressBytes = take 32 body,
                chainIds = map (\<lambda>i. 256 * unat (body ! (32 + 2 * i)) + unat (body ! (32 + 2 * i + 1)))
                             [0 ..< (length body - 32) div 2],
                leftovers = None\<rparr> \<and>
         (\<forall>c input. assertHex input = None \<longrightarrow> hexToBytes input = Inr (0x03 # body) \<longrightarrow>
            (\<exists>r. decodeGasZipCalldata c input = Inr r \<and> type_d r = BASE58 \<and>
                 base58Hex (destination r) = Some (bytesToHex (take 32 body)) \<and>
                 solanaLike (destination r) = Some True \<and>
                 map id_m (chainIds_d r) =
                   map (\<lambda>i. 256 * unat (body ! (32 + 2 * i)) + unat (body ! (32 + 2 * i + 1)))
                     [0 ..< (length body - 32) div 2] \<and>
                 (\<forall>info. length body = 34 \<and>
                     GASZIP_CHAINS (256 * unat (body ! 32) + unat (body ! 33)) = Some info \<longrightarrow>
                     chainIds_d r =
                       [\<lparr>id_m = 256 * unat (body ! 32) + unat (body ! 33),
                         name_m = Some (name info), nativeId_m = Some (nativeId info)\<rparr>])))"
proof -
  let ?k = "(length body - 32) div 2"
  let ?ids = "map (\<lambda>i. 256 * unat (body ! (32 + 2 * i)) + unat (body ! (32 + 2 * i + 1))) [0 ..< ?k]"
  let ?s = "\<lparr>addressBytes = take 32 body, chainIds = ?ids, leftovers = None\<rparr>"
  have len: "length body = 32 + 2 * ?k"
    using assms by presburger
  have split: "splitAddressAndChains 0x03 body = Inr ?s"
    using split_fast [OF assms] u16s_drop_even [OF len] by simp
  have "\<exists>r. decodeGasZipCalldata c input = Inr r \<and> type_d r = BASE58 \<and>
                 base58Hex (destination r) = Some (bytesToHex (take 32 body)) \<and>
                 solanaLike (destination r) = Some True \<and>
                 map id_m (chainIds_d r) = ?ids \<and>
                 (\<forall>info. length body = 34 \<and>
                     GASZIP_CHAINS (256 * unat (body ! 32) + unat (body ! 33)) = Some info \<longrightarrow>
                     chainIds_d r =
                       [\<lparr>id_m = 256 * unat (body ! 32) + unat (body ! 33),
                         name_m = Some (name info), nativeId_m = Some (nativeId info)\<rparr>])"
    if hex: "assertHex input = None" "hexToBytes input = Inr (0x03 # body)" for c input
  proof -
    let ?r = "\<lparr>type_d = BASE58, raw = input, prefix_d = ''0x03'',
         destination = empty_destination
           \<lparr>base58 := Some (tryEncode '''' (bs58_encode c (addressBytes ?s))),
            base58Hex := Some (bytesToHex (addressBytes ?s)),
            solanaLike := Some (length (addressBytes ?s) = 32)\<rparr>,
         chainIds_d = map mapChain (chainIds ?s), leftoversHex = None\<rparr>"
    have d: "decodeGasZipCalldata c input = Inr ?r"
      by (rule decode_BASE58 [OF hex split])
    have "chainIds_d ?r = [\<lparr>id_m = 256 * unat (body ! 32) + unat (body ! 33),
                         name_m = Some (name info), nativeId_m = Some (nativeId info)\<rparr>]"
      if "length body = 34" "GASZIP_CHAINS (256 * unat (body ! 32) + unat (body ! 33)) = Some info" for info
      using that by (simp add: mapChain_def)
    moreover have "map id_m (chainIds_d ?r) = ?ids"
      by (simp add: comp_def)
    moreover have "solanaLike (destination ?r) = Some True"
      using assms(1) by simp
    ultimately show ?thesis
      using d by (intro exI [of _ ?r]) simp
  qed
  with split show ?thesis by blast
qed

text \<open>
  The theorem at 0x03, thirty-two bytes 0x22 and the chain id 0x0036.
\<close>

theorem base58_fast_path_witness:
  "splitAddressAndChains 0x03
     [0x22, 0x22, 0x22, 0x22, 0x22, 0x22, 0x22, 0x22, 0x22, 0x22, 0x22, 0x22, 0x22, 0x22, 0x22, 0x22, 0x22, 0x22, 0x22, 0x22, 0x22, 0x22, 0x22, 0x22, 0x22, 0x22, 0x22, 0x22, 0x22, 0x22, 0x22, 0x22, 0x00, 0x36] =
     Inr \<lparr>addressBytes = [0x22, 0x22, 0x22, 0x22, 0x22, 0x22, 0x22, 0x22, 0x22, 0x22, 0x22, 0x22, 0x22, 0x22, 0x22, 0x22, 0x22, 0x22, 0x22, 0x22, 0x22, 0x22, 0x22, 0x22, 0x22, 0x22, 0x22, 0x22, 0x22, 0x22, 0x22, 0x22],
          chainIds = [54], leftovers = None\<rparr> \<and>
   (\<exists>r. decodeGasZipCalldata failing_codecs
          ''0x0322222222222222222222222222222222222222222222222222222222222222220036'' = Inr r \<and>
        type_d r = BASE58 \<and>
        base58Hex (destination r) = Some ''0x2222222222222222222222222222222222222222222222222222222222222222'' \<and>
        solanaLike (destination r) = Some True \<and>
        chainIds_d r = [\<lparr>id_m = 54, name_m = Some ''Base Mainnet'', nativeId_m = Some 8453\<rparr>])"
proof -
  let ?B = "[0x22, 0x22, 0x22, 0x22, 0x22, 0x22, 0x22, 0x22, 0x22, 0x22, 0x22, 0x22, 0x22, 0x22, 0x22, 0x22, 0x22, 0x22, 0x22, 0x22, 0x22, 0x22, 0x22, 0x22, 0x22, 0x22, 0x22, 0x22, 0x22, 0x22, 0x22, 0x22, 0x00, 0x36] :: byte list"
  let ?I = "''0x0322222222222222222222222222222222222222222222222222222222222222220036''"
  have len: "length ?B \<ge> 32" "(length ?B - 32) mod 2 = 0" "length ?B = 34"
    by simp_all
  have a: "assertHex ?I = None"
    by (simp add: assertHex_0x)
  have h: "hexToBytes ?I = Inr (0x03 # ?B)"
    by (simp add: hex_eval)
  have hx: "bytesToHex (take 32 ?B) = ''0x2222222222222222222222222222222222222222222222222222222222222222''"
    by (simp add: text_eval)
  have reg: "GASZIP_CHAINS (256 * unat (?B ! 32) + unat (?B ! 33)) =
      Some \<lparr>name = ''Base Mainnet'', nativeId = 8453\<rparr>"
    by (simp add: registry_54)
  have ids: "256 * unat (?B ! 32) + unat (?B ! 33) = 54"
    by simp
  from base58_fast_path [OF len(1,2)] a h
  obtain r where r: "decodeGasZipCalldata failing_codecs ?I = Inr r" "type_d r = BASE58"
    "base58Hex (destination r) = Some (bytesToHex (take 32 ?B))"
    "solanaLike (destination r) = Some True"
    "\<forall>info. length ?B = 34 \<and>
        GASZIP_CHAINS (256 * unat (?B ! 32) + unat (?B ! 33)) = Some info \<longrightarrow>
        chainIds_d r =
          [\<lparr>id_m = 256 * unat (?B ! 32) + unat (?B ! 33),
            name_m = Some (name info), nativeId_m = Some (nativeId info)\<rparr>]"
    by blast
  from r(5) len(3) reg have "chainIds_d r =
      [\<lparr>id_m = 256 * unat (?B ! 32) + unat (?B ! 33),
        name_m = Some ''Base Mainnet'', nativeId_m = Some 8453\<rparr>]"
    by fastforce
  then have "chainIds_d r = [\<lparr>id_m = 54, name_m = Some ''Base Mainnet'', nativeId_m = Some 8453\<rparr>]"
    by (simp only: ids)
  moreover have "splitAddressAndChains 0x03 ?B =
     Inr \<lparr>addressBytes = take 32 ?B, chainIds = [54], leftovers = None\<rparr>"
    using base58_fast_path [OF len(1,2)] by (simp add: upt_rec)
  ultimately show ?thesis
    using r(1-4) hx by simp
qed

text \<open>
  Claim C10. For prefix 0x03 or 0x05 and a body of fewer than three bytes (for 0x03 the
  fast path cannot apply to it) the decoder succeeds: no chain ids, and the whole body,
  also an empty one, as the address bytes. No minimum address length is enforced.
\<close>

theorem short_variable_body:
  assumes "p = 0x03 \<or> p = 0x05" and "length body < 3"
  shows "splitAddressAndChains p body =
           Inr \<lparr>addressBytes = body, chainIds = [], leftovers = None\<rparr> \<and>
         (\<forall>c input. assertHex input = None \<longrightarrow> hexToBytes input = Inr (p # body) \<longrightarrow>
            decodeGasZipCalldata c input =
              Inr (if p = 0x03 then
                     \<lparr>type_d = BASE58, raw = input, prefix_d = ''0x03'',
                      destination = empty_destination
                        \<lparr>base58 := Some (tryEncode '''' (bs58_encode c body)),
                         base58Hex := Some (bytesToHex body),
                         solanaLike := Some False\<rparr>,
                      chainIds_d = [], leftoversHex = None\<rparr>
                   else
                     \<lparr>type_d = XRP, raw = input, prefix_d = ''0x05'',
                      destination = empty_destination
                        \<lparr>xrp := Some (tryEncode '''' (xrpb58_encode c body))\<rparr>,
                      chainIds_d = [], leftoversHex = None\<rparr>))"
proof -
  have sc: "scanTail body (length body) [] = (length body, [])"
    using assms(2) by (subst scanTail.simps) simp
  have none: "fixedLen p = None"
    using assms(1) by (auto simp: fixedLen_def)
  have slow: "\<not> (p = 0x03 \<and> length body \<ge> 32 \<and> (length body - 32) mod 2 = 0)"
    using assms(2) by simp
  have split: "splitAddressAndChains p body =
      Inr \<lparr>addressBytes = body, chainIds = [], leftovers = None\<rparr>"
    using split_heuristic [OF none slow] sc by simp
  show ?thesis
  proof (cases "p = 0x03")
    case True
    with split assms(2) decode_BASE58 [of _ body "\<lparr>addressBytes = body, chainIds = [], leftovers = None\<rparr>"]
    show ?thesis by simp
  next
    case False
    with assms(1) have "p = 0x05" by simp
    with split decode_XRP [of _ body "\<lparr>addressBytes = body, chainIds = [], leftovers = None\<rparr>"]
    show ?thesis by simp
  qed
qed

text \<open>
  The theorem at the one-byte payloads 0x03 and 0x05, and at a body of two bytes that
  are a registered chain id.
\<close>

theorem short_variable_body_witness:
  "decodeGasZipCalldata failing_codecs ''0x03'' =
     Inr \<lparr>type_d = BASE58, raw = ''0x03'', prefix_d = ''0x03'',
          destination = empty_destination
            \<lparr>base58 := Some '''', base58Hex := Some ''0x'', solanaLike := Some False\<rparr>,
          chainIds_d = [], leftoversHex = None\<rparr> \<and>
   decodeGasZipCalldata failing_codecs ''0x05'' =
     Inr \<lparr>type_d = XRP, raw = ''0x05'', prefix_d = ''0x05'',
          destination = empty_destination\<lparr>xrp := Some ''''\<rparr>,
          chainIds_d = [], leftoversHex = None\<rparr> \<and>
   splitAddressAndChains 0x05 [0x00, 0x36] =
     Inr \<lparr>addressBytes = [0x00, 0x36], chainIds = [], leftovers = None\<rparr>"
proof -
  have a: "assertHex ''0x03'' = None" "assertHex ''0x05'' = None"
    by (simp_all add: assertHex_0x)
  have h: "hexToBytes ''0x03'' = Inr (0x03 # [])" "hexToBytes ''0x05'' = Inr (0x05 # [])"
    by (simp_all add: hex_eval)
  have p: "0x03 = (0x03 :: byte) \<or> 0x03 = (0x05 :: byte)" "0x05 = (0x03 :: byte) \<or> 0x05 = (0x05 :: byte)"
    by simp_all
  have l: "length ([] :: byte list) < 3" "length [0x00, 0x36 :: byte] < 3"
    by simp_all
  from short_variable_body [OF p(1) l(1)] short_variable_body [OF p(2) l(1)]
       short_variable_body [OF p(2) l(2)] a h
  show ?thesis
    by (simp add: failing_codecs_def tryEncode_def bytesToHex_def)
qed

subsection \<open>Unknown prefixes\<close>

text \<open>
  Claim C4, as amended. For every payload whose prefix byte is outside 0x01 .. 0x06 the
  decoder does not throw: it returns a result of type \<open>UNKNOWN\<close> with an empty
  destination and no leftover field. The body is not kept in the leftover field; it goes
  through the backward scan of the variable-length formats, and the chain ids found
  there are reported. The payload itself stays in \<open>raw\<close>.
\<close>

theorem unknown_prefix_result:
  assumes "assertHex input = None" and "hexToBytes input = Inr (p # body)"
    and "p \<notin> {0x01, 0x02, 0x03, 0x04, 0x05, 0x06}"
  shows "decodeGasZipCalldata c input =
    Inr \<lparr>type_d = UNKNOWN, raw = input,
         prefix_d = ''0x'' @ padStart (toString16 (unat p)) 2 CHR ''0'',
         destination = empty_destination,
         chainIds_d = map mapChain (rev (snd (scanTail body (length body) []))),
         leftoversHex = None\<rparr>"
  using decode_UNKNOWN [OF assms split_other [OF assms(3)], of c] by simp

text \<open>
  The theorem at prefix 0x00 and a body of five bytes, whose last two pairs are scanned
  as the chain ids 54 and 65535.
\<close>

theorem unknown_prefix_result_witness:
  "decodeGasZipCalldata failing_codecs ''0x00aa0036ffff'' =
    Inr \<lparr>type_d = UNKNOWN, raw = ''0x00aa0036ffff'', prefix_d = ''0x00'',
         destination = empty_destination,
         chainIds_d = [\<lparr>id_m = 54, name_m = Some ''Base Mainnet'', nativeId_m = Some 8453\<rparr>,
                       \<lparr>id_m = 65535, name_m = None, nativeId_m = None\<rparr>],
         leftoversHex = None\<rparr>"
proof -
  let ?B = "[0xAA, 0x00, 0x36, 0xFF, 0xFF] :: byte list"
  have a: "assertHex ''0x00aa0036ffff'' = None"
    by (simp add: assertHex_0x)
  have h: "hexToBytes ''0x00aa0036ffff'' = Inr (0x00 # ?B)"
    by (simp add: hex_eval)
  have p: "(0x00 :: byte) \<notin> {0x01, 0x02, 0x03, 0x04, 0x05, 0x06}"
    by simp
  have sc: "scanTail ?B (length ?B) [] = (1, [65535, 54])"
    by (simp add: scan_eval)
  have t: "padStart (toString16 (unat (0x00 :: byte))) 2 CHR ''0'' = ''00''"
    by (simp add: text_eval)
  from unknown_prefix_result [OF a h p, of failing_codecs] sc t show ?thesis
    by (simp add: mapChain_def registry_54 registry_none_large)
qed

text \<open>
  Claim C4 as stated fails at the payload 0x07 aa 00 36: the result has no leftover field,
  where the claim asks for the body \<open>aa 00 36\<close> in it.
\<close>

theorem unknown_prefix_leftover_counterexample:
  "decodeGasZipCalldata failing_codecs ''0x07aa0036'' =
    Inr \<lparr>type_d = UNKNOWN, raw = ''0x07aa0036'', prefix_d = ''0x07'',
         destination = empty_destination,
         chainIds_d = [\<lparr>id_m = 54, name_m = Some ''Base Mainnet'', nativeId_m = Some 8453\<rparr>],
         leftoversHex = None\<rparr> \<and>
   \<not> (\<exists>r. decodeGasZipCalldata failing_codecs ''0x07aa0036'' = Inr r \<and>
          leftoversHex r = Some (bytesToHex [0xAA, 0x00, 0x36]))"
proof -
  let ?B = "[0xAA, 0x00, 0x36] :: byte list"
  have a: "assertHex ''0x07aa0036'' = None"
    by (simp add: assertHex_0x)
  have h: "hexToBytes ''0x07aa0036'' = Inr (0x07 # ?B)"
    by (simp add: hex_eval)
  have p: "(0x07 :: byte) \<notin> {0x01, 0x02, 0x03, 0x04, 0x05, 0x06}"
    by simp
  have sc: "scanTail ?B (length ?B) [] = (1, [54])"
    by (simp add: scan_eval)
  have split: "splitAddressAndChains 0x07 ?B =
      Inr \<lparr>addressBytes = [0xAA], chainIds = [54], leftovers = None\<rparr>"
    using split_other [OF p, of ?B] sc by simp
  have t: "padStart (toString16 (unat (0x07 :: byte))) 2 CHR ''0'' = ''07''"
    by (simp add: text_eval)
  have "decodeGasZipCalldata failing_codecs ''0x07aa0036'' =
    Inr \<lparr>type_d = UNKNOWN, raw = ''0x07aa0036'', prefix_d = ''0x07'',
         destination = empty_destination,
         chainIds_d = [\<lparr>id_m = 54, name_m = Some ''Base Mainnet'', nativeId_m = Some 8453\<rparr>],
         leftoversHex = None\<rparr>"
    using decode_UNKNOWN [OF a h p split, of failing_codecs] t
    by (simp add: mapChain_def registry_54)
  then show ?thesis by simp
qed

subsection \<open>Failing address encoders\<close>

text \<open>
  Claim C8. Whatever the encoders do, the decoder returns a result once the split has
  succeeded. When the base58 encoder throws on the address bytes of a 0x03 payload, the
  result has an empty \<open>base58\<close> text and the address in \<open>base58Hex\<close>; when the
  Ripple-alphabet encoder throws on a 0x05 payload, the result has an empty \<open>xrp\<close>
  text; when \<open>toWords\<close> or \<open>encode\<close> of bech32 throws on a 0x06 payload, the result has
  no \<open>initia\<close> text and the address in \<open>initiaHex\<close>.
\<close>

theorem encoding_failures_absorbed:
  assumes "assertHex input = None" and "hexToBytes input = Inr (p # body)"
    and "splitAddressAndChains p body = Inr s"
  shows "(\<exists>r. decodeGasZipCalldata c input = Inr r) \<and>
    (p = 0x03 \<and> bs58_encode c (addressBytes s) = None \<longrightarrow>
       (\<exists>r. decodeGasZipCalldata c input = Inr r \<and> type_d r = BASE58 \<and>
            base58 (destination r) = Some '''' \<and>
            base58Hex (destination r) = Some (bytesToHex (addressBytes s)) \<and>
            chainIds_d r = map mapChain (chainIds s))) \<and>
    (p = 0x05 \<and> xrpb58_encode c (addressBytes s) = None \<longrightarrow>
       (\<exists>r. decodeGasZipCalldata c input = Inr r \<and> type_d r = XRP \<and>
            xrp (destination r) = Some '''' \<and>
            chainIds_d r = map mapChain (chainIds s))) \<and>
    (p = 0x06 \<and>
       (bech32_toWords c (addressBytes s) = None \<or>
        (\<exists>w. bech32_toWords c (addressBytes s) = Some w \<and> bech32_encode c ''init'' w = None)) \<longrightarrow>
       (\<exists>r. decodeGasZipCalldata c input = Inr r \<and> type_d r = INITIA \<and>
            initia (destination r) = None \<and>
            initiaHex (destination r) = Some (bytesToHex (addressBytes s)) \<and>
            chainIds_d r = map mapChain (chainIds s)))"
proof (intro conjI impI)
  show "\<exists>r. decodeGasZipCalldata c input = Inr r"
    by (rule decode_split_ok [OF assms])
next
  assume "p = 0x03 \<and> bs58_encode c (addressBytes s) = None"
  with decode_BASE58 [of input body s c] assms
  show "\<exists>r. decodeGasZipCalldata c input = Inr r \<and> type_d r = BASE58 \<and>
            base58 (destination r) = Some '''' \<and>
            base58Hex (destination r) = Some (bytesToHex (addressBytes s)) \<and>
            chainIds_d r = map mapChain (chainIds s)"
    by (simp add: tryEncode_def)
next
  assume "p = 0x05 \<and> xrpb58_encode c (addressBytes s) = None"
  with decode_XRP [of input body s c] assms
  show "\<exists>r. decodeGasZipCalldata c input = Inr r \<and> type_d r = XRP \<and>
            xrp (destination r) = Some '''' \<and>
            chainIds_d r = map mapChain (chainIds s)"
    by (simp add: tryEncode_def)
next
  assume f: "p = 0x06 \<and>
       (bech32_toWords c (addressBytes s) = None \<or>
        (\<exists>w. bech32_toWords c (addressBytes s) = Some w \<and> bech32_encode c ''init'' w = None))"
  then have p: "p = 0x06" by simp
  have fl: "fixedLen 0x06 = Some 20"
    by (simp add: fixedLen_def)
  from assms(3) p have len: "length (addressBytes s) = 20"
    by (auto simp: split_fixed [OF fl] split: if_splits)
  from f have "(case bech32_toWords c (addressBytes s) of
                  None \<Rightarrow> None
                | Some words \<Rightarrow> bech32_encode c ''init'' words) = None"
    by auto
  with decode_INITIA [of input body s c] assms p len
  show "\<exists>r. decodeGasZipCalldata c input = Inr r \<and> type_d r = INITIA \<and>
            initia (destination r) = None \<and>
            initiaHex (destination r) = Some (bytesToHex (addressBytes s)) \<and>
            chainIds_d r = map mapChain (chainIds s)"
    by simp
qed

text \<open>
  The theorem with encoders that always throw, at one payload of each of the three
  formats.
\<close>

theorem encoding_failures_absorbed_witness:
  "(\<exists>r. decodeGasZipCalldata failing_codecs ''0x03aabb'' = Inr r \<and> type_d r = BASE58 \<and>
        base58 (destination r) = Some '''' \<and> base58Hex (destination r) = Some ''0xaabb'' \<and>
        chainIds_d r = []) \<and>
   (\<exists>r. decodeGasZipCalldata failing_codecs ''0x05aabb'' = Inr r \<and> type_d r = XRP \<and>
        xrp (destination r) = Some '''' \<and> chainIds_d r = []) \<and>
   (\<exists>r. decodeGasZipCalldata failing_codecs ''0x063333333333333333333333333333333333333333'' = Inr r \<and>
        type_d r = INITIA \<and> initia (destination r) = None \<and>
        initiaHex (destination r) = Some ''0x3333333333333333333333333333333333333333'' \<and>
        chainIds_d r = [])"
proof -
  let ?B = "[0xAA, 0xBB] :: byte list"
  let ?S = "\<lparr>addressBytes = ?B, chainIds = [], leftovers = None\<rparr>"
  let ?A = "[0x33, 0x33, 0x33, 0x33, 0x33, 0x33, 0x33, 0x33, 0x33, 0x33,
             0x33, 0x33, 0x33, 0x33, 0x33, 0x33, 0x33, 0x33, 0x33, 0x33] :: byte list"
  let ?T = "\<lparr>addressBytes = ?A, chainIds = [], leftovers = None\<rparr>"
  have a: "assertHex ''0x03aabb'' = None" "assertHex ''0x05aabb'' = None"
    "assertHex ''0x063333333333333333333333333333333333333333'' = None"
    by (simp_all add: assertHex_0x)
  have h3: "hexToBytes ''0x03aabb'' = Inr (0x03 # ?B)"
    by (simp add: hex_eval)
  have h5: "hexToBytes ''0x05aabb'' = Inr (0x05 # ?B)"
    by (simp add: hex_eval)
  have h6: "hexToBytes ''0x063333333333333333333333333333333333333333'' = Inr (0x06 # ?A)"
    by (simp add: hex_eval)
  have sc: "scanTail ?B (length ?B) [] = (2, [])"
    by (simp add: scan_eval)
  have s3: "splitAddressAndChains 0x03 ?B = Inr ?S"
    using split_heuristic [OF fixedLen_None_3, of ?B] sc by simp
  have s5: "splitAddressAndChains 0x05 ?B = Inr ?S"
    using split_heuristic [OF fixedLen_None_5, of ?B] sc by simp
  have s6: "splitAddressAndChains 0x06 ?A = Inr ?T"
    by (simp add: split_fixed [of "0x06" 20] fixedLen_def)
  have hx: "bytesToHex ?B = ''0xaabb''"
    "bytesToHex ?A = ''0x3333333333333333333333333333333333333333''"
    by (simp_all add: text_eval)
  from encoding_failures_absorbed [OF a(1) h3 s3, of failing_codecs]
       encoding_failures_absorbed [OF a(2) h5 s5, of failing_codecs]
       encoding_failures_absorbed [OF a(3) h6 s6, of failing_codecs]
       hx
  show ?thesis
    by (simp add: failing_codecs_def)
qed

subsection \<open>Characters that are not hexadecimal digits\<close>

text \<open>
  Claim C3 at the input \<open>0x01zz3g\<close>, which has the prefix \<open>0x\<close> and an even length but
  the characters \<open>z\<close> and \<open>g\<close>: the decoder does not fail. \<open>parseInt\<close> of \<open>zz\<close> is
  \<open>NaN\<close>, stored as the byte 0; \<open>parseInt\<close> of \<open>3g\<close> is 3. The result is a
  self-deposit to chain 3.
\<close>

theorem non_hex_input_decoded:
  "decodeGasZipCalldata c ''0x01zz3g'' =
     Inr \<lparr>type_d = SELF, raw = ''0x01zz3g'', prefix_d = ''0x01'',
          destination = empty_destination,
          chainIds_d = [\<lparr>id_m = 3, name_m = None, nativeId_m = None\<rparr>],
          leftoversHex = None\<rparr>"
proof -
  have a: "assertHex ''0x01zz3g'' = None"
    by (simp add: assertHex_0x)
  have h: "hexToBytes ''0x01zz3g'' = Inr (0x01 # [0x00, 0x03])"
    by (simp add: hex_eval)
  have s: "splitAddressAndChains 0x01 [0x00, 0x03] =
      Inr \<lparr>addressBytes = [], chainIds = [3], leftovers = None\<rparr>"
    by (simp add: split_fixed [of "0x01" 0] fixedLen_def)
  from decode_SELF [OF a h s, of c] show ?thesis
    by (simp add: mapChain_def registry_none_small)
qed

end
